theory Spec2Isabelle
  imports Complex_Main
begin

section \<open>Errors\<close>

text \<open>
  The notebooks signal failure by Python exceptions. Each exception that the modelled
  code can raise is a value of \<open>error\<close>; a computation that may raise returns
  \<open>error + 'a\<close> with \<open>Inl\<close> for the exception.
\<close>

datatype error = ValueError | IndexError | KeyError | AssertionError

section \<open>The log-spaced range generator (Hyperparametertuning.ipynb)\<close>

text \<open>
  Floating-point numbers are modelled as real numbers. The model therefore describes
  the generator on strictly positive bounds, where \<open>np.log10\<close> is finite; the
  source says so itself (\<open>#range cannot include 0\<close>).

  \<open>np.linspace(start, stop, num)\<close> with the default \<open>endpoint=True\<close>: a negative
  \<open>num\<close> raises \<open>ValueError\<close>; otherwise \<open>div = num - 1\<close>, the samples are
  \<open>arange(0, num) * step + start\<close> with \<open>step = (stop - start) / div\<close> when
  \<open>div > 0\<close> (and \<open>arange(0, num) * (stop - start) + start\<close> when it is not), and
  for \<open>num > 1\<close> the last sample is overwritten by \<open>stop\<close>.
\<close>

definition linspace :: "real \<Rightarrow> real \<Rightarrow> int \<Rightarrow> error + real list" where
  "linspace start stop num =
     (if num < 0 then Inl ValueError
      else
        let n = nat num;
            dv = num - 1;
            delta = stop - start;
            y = (if 0 < dv
                 then map (\<lambda>i. real i * (delta / real_of_int dv) + start) [0..<n]
                 else map (\<lambda>i. real i * delta + start) [0..<n])
        in Inr (if 1 < num then y[n - 1 := stop] else y))"

text \<open>
  A hyperparameter specification is a Python dict from dimension names to triples
  \<open>(low, high, count)\<close>. Dicts keep insertion order, which fixes the order of the
  coordinates of a grid point, so the dict is an association list; a dict has no
  duplicate keys, which is the predicate \<open>hps_ok\<close>.
\<close>

type_synonym hp_spec = "real \<times> real \<times> int"

type_synonym hps = "(string \<times> hp_spec) list"

definition hps_ok :: "hps \<Rightarrow> bool" where
  "hps_ok hps = distinct (map fst hps)"

definition keys :: "hps \<Rightarrow> string list" where
  "keys hps = map fst hps"

definition counts :: "hps \<Rightarrow> int list" where
  "counts hps = map (\<lambda>(k, lo, hi, c). c) hps"

text \<open>
  \<^verbatim>\<open>
  def range(hps, hp):
      log_range=np.linspace(np.log10(hps[hp][0]), np.log10(hps[hp][1]) , hps[hp][2], dtype=float)
      return 10**log_range
  \<close>
\<close>

definition range_hp :: "hps \<Rightarrow> string \<Rightarrow> error + real list" where
  "range_hp hps hp =
     (case map_of hps hp of
        None \<Rightarrow> Inl KeyError
      | Some (lo, hi, c) \<Rightarrow>
          (case linspace (log 10 lo) (log 10 hi) c of
             Inl e \<Rightarrow> Inl e
           | Inr log_range \<Rightarrow> Inr (map (\<lambda>x. 10 powr x) log_range)))"

text \<open>
  A list comprehension whose elements may raise: the first exception ends it.
\<close>

fun collect :: "(error + 'a) list \<Rightarrow> error + 'a list" where
  "collect [] = Inr []"
| "collect (r # rs) =
     (case r of
        Inl e \<Rightarrow> Inl e
      | Inr x \<Rightarrow> (case collect rs of Inl e \<Rightarrow> Inl e | Inr xs \<Rightarrow> Inr (x # xs)))"

text \<open>
  \<open>itertools.product(*ranges_list)\<close>: the Cartesian product as tuples, the last
  coordinate varying fastest; the product of no ranges is the single empty tuple.
\<close>

fun it_product :: "'a list list \<Rightarrow> 'a list list" where
  "it_product [] = [[]]"
| "it_product (xs # xss) = concat (map (\<lambda>x. map (\<lambda>p. x # p) (it_product xss)) xs)"

text \<open>
  The first two lines of every grid-search function:
  \<^verbatim>\<open>
  ranges_list=[range(hps, hp) for hp in hps.keys()]
  grid=list(it.product(*ranges_list))
  \<close>
\<close>

definition ranges_list :: "hps \<Rightarrow> error + real list list" where
  "ranges_list hps = collect (map (range_hp hps) (keys hps))"

definition build_grid :: "hps \<Rightarrow> error + real list list" where
  "build_grid hps =
     (case ranges_list hps of Inl e \<Rightarrow> Inl e | Inr rl \<Rightarrow> Inr (it_product rl))"

section \<open>The grid-search functions (Hyperparametertuning.ipynb)\<close>

text \<open>
  \<open>crossvalid_nobar\<close> and \<open>crossvalid_AdamW_nobar\<close> (scripts/utility_functions.py)
  and the model constructors \<open>two_layer_classifier_do\<close> and
  \<open>three_layer_classifier_do\<close> (scripts/models.py) are not part of the notebook; the
  grid-search functions take them as parameters. The trainer returns a dict of data
  frames, one per metric, of which the grid search reads \<open>output_pt['unweighted_f1']\<close>
  and \<open>output_pt['logloss']\<close>, and of each the three columns \<open>split_0_val\<close>,
  \<open>split_1_val\<close>, \<open>split_2_val\<close>: the value of the metric on the validation fold
  after each epoch, row \<open>e\<close> for epoch \<open>e\<close>.
\<close>

record metric_df =
  split_0_val :: "real list"
  split_1_val :: "real list"
  split_2_val :: "real list"

record cv_output =
  unweighted_f1 :: metric_df
  logloss :: metric_df

text \<open>
  The trainer was run for \<open>n\<close> epochs when every column it returns has \<open>n\<close> rows.
\<close>

definition epochs :: "nat \<Rightarrow> cv_output \<Rightarrow> bool" where
  "epochs n out =
     (length (split_0_val (unweighted_f1 out)) = n \<and>
      length (split_1_val (unweighted_f1 out)) = n \<and>
      length (split_2_val (unweighted_f1 out)) = n \<and>
      length (split_0_val (logloss out)) = n \<and>
      length (split_1_val (logloss out)) = n \<and>
      length (split_2_val (logloss out)) = n)"

text \<open>
  Operations of \<open>pandas.Series\<close> on columns indexed \<open>0, 1, 2, \<dots>\<close>. The sum of two
  columns is taken row by row. The values are doubles, modelled as real numbers, and
  the sum of two doubles is their exact sum rounded to a double: the addition that the
  code performs is the parameter \<open>fadd\<close> of the model, and exact addition \<open>(+)\<close> is
  the code's addition up to that rounding. Comparisons of doubles are exact, so
  \<open>max\<close>, \<open>min\<close>, \<open>argmax\<close> and \<open>argmin\<close> are those of the real numbers.
  \<open>max\<close> and \<open>min\<close> of a column without rows are NaN
  in pandas, which the model does not represent; the grid search never returns such
  a value, because \<open>argmax\<close> or \<open>argmin\<close> of the same column raises
  \<open>ValueError\<close> on the next line. \<open>argmax\<close> and \<open>argmin\<close> return the position
  of the first occurrence of the extremum.
\<close>

definition series_add :: "(real \<Rightarrow> real \<Rightarrow> real) \<Rightarrow> real list \<Rightarrow> real list \<Rightarrow> real list" where
  "series_add fadd xs ys = map2 fadd xs ys"

definition series_max :: "real list \<Rightarrow> real" where
  "series_max xs = Max (set xs)"

definition series_min :: "real list \<Rightarrow> real" where
  "series_min xs = Min (set xs)"

definition first_index :: "real \<Rightarrow> real list \<Rightarrow> nat" where
  "first_index v xs = length (takeWhile (\<lambda>x. x \<noteq> v) xs)"

definition series_argmax :: "real list \<Rightarrow> error + nat" where
  "series_argmax xs =
     (if xs = [] then Inl ValueError else Inr (first_index (Max (set xs)) xs))"

definition series_argmin :: "real list \<Rightarrow> error + nat" where
  "series_argmin xs =
     (if xs = [] then Inl ValueError else Inr (first_index (Min (set xs)) xs))"

text \<open>
  \<open>d['split_0_val']+d['split_1_val']+d['split_2_val']\<close>, added from left to right.
\<close>

definition sum_splits :: "(real \<Rightarrow> real \<Rightarrow> real) \<Rightarrow> metric_df \<Rightarrow> real list" where
  "sum_splits fadd d =
     series_add fadd (series_add fadd (split_0_val d) (split_1_val d)) (split_2_val d)"

text \<open>
  The table \<open>selector\<close>: a data frame of four columns, all rows initialised to 0.
  \<open>selector.loc[i, col] = v\<close> overwrites one cell of row \<open>i\<close>; the loop only uses
  row labels that exist.
\<close>

record sel_row =
  best_f1_val :: real
  f1_val_stop :: int
  best_logloss_val :: real
  logloss_val_stop :: int

definition zero_row :: sel_row where
  "zero_row = \<lparr>best_f1_val = 0, f1_val_stop = 0, best_logloss_val = 0, logloss_val_stop = 0\<rparr>"

definition set_best_f1_val :: "nat \<Rightarrow> real \<Rightarrow> sel_row list \<Rightarrow> sel_row list" where
  "set_best_f1_val i v selector = selector[i := (selector ! i)\<lparr>best_f1_val := v\<rparr>]"

definition set_f1_val_stop :: "nat \<Rightarrow> int \<Rightarrow> sel_row list \<Rightarrow> sel_row list" where
  "set_f1_val_stop i v selector = selector[i := (selector ! i)\<lparr>f1_val_stop := v\<rparr>]"

definition set_best_logloss_val :: "nat \<Rightarrow> real \<Rightarrow> sel_row list \<Rightarrow> sel_row list" where
  "set_best_logloss_val i v selector = selector[i := (selector ! i)\<lparr>best_logloss_val := v\<rparr>]"

definition set_logloss_val_stop :: "nat \<Rightarrow> int \<Rightarrow> sel_row list \<Rightarrow> sel_row list" where
  "set_logloss_val_stop i v selector = selector[i := (selector ! i)\<lparr>logloss_val_stop := v\<rparr>]"

text \<open>\<open>pt[k]\<close> on a tuple.\<close>

definition pt_get :: "real list \<Rightarrow> nat \<Rightarrow> error + real" where
  "pt_get pt k = (if k < length pt then Inr (pt ! k) else Inl IndexError)"

text \<open>
  The last six lines of the loop body of \<open>twolayergridsearch\<close> and
  \<open>threelayergridsearch\<close>:
  \<^verbatim>\<open>
  df_f1=output_pt['unweighted_f1']
  df_logloss=output_pt['logloss']
  selector.loc[i, 'best_f1_val']=(df_f1['split_0_val']+df_f1['split_1_val']+df_f1['split_2_val']).max()/3
  selector.loc[i, 'f1_val_stop']=(df_f1['split_0_val']+df_f1['split_1_val']+df_f1['split_2_val']).argmax()
  selector.loc[i, 'best_logloss_val']=(df_logloss['split_0_val']+df_logloss['split_1_val']+df_logloss['split_2_val']).min()/3
  selector.loc[i, 'logloss_val_stop']=(df_logloss['split_0_val']+df_logloss['split_1_val']+df_logloss['split_2_val']).argmin()
  \<close>
\<close>

definition record_point ::
  "(real \<Rightarrow> real \<Rightarrow> real) \<Rightarrow> cv_output \<Rightarrow> nat \<Rightarrow> sel_row list \<Rightarrow> error + sel_row list" where
  "record_point fadd output_pt i selector =
     (let df_f1 = unweighted_f1 output_pt;
          df_logloss = logloss output_pt;
          s1 = set_best_f1_val i (series_max (sum_splits fadd df_f1) / 3) selector
      in case series_argmax (sum_splits fadd df_f1) of
           Inl e \<Rightarrow> Inl e
         | Inr a \<Rightarrow>
             (let s2 = set_f1_val_stop i (int a) s1;
                  s3 = set_best_logloss_val i (series_min (sum_splits fadd df_logloss) / 3) s2
              in case series_argmin (sum_splits fadd df_logloss) of
                   Inl e \<Rightarrow> Inl e
                 | Inr b \<Rightarrow> Inr (set_logloss_val_stop i (int b) s3)))"

text \<open>
  The same six lines in \<open>twolayergridsearch_AdamW\<close> and
  \<open>threelayergridsearch_AdamW\<close>, where the last two assignments go to the columns of
  the first two:
  \<^verbatim>\<open>
  selector.loc[i, 'best_f1_val']=(df_f1['split_0_val']+df_f1['split_1_val']+df_f1['split_2_val']).max()/3
  selector.loc[i, 'f1_val_stop']=(df_f1['split_0_val']+df_f1['split_1_val']+df_f1['split_2_val']).argmax()
  selector.loc[i, 'best_f1_val']=(df_logloss['split_0_val']+df_logloss['split_1_val']+df_logloss['split_2_val']).min()/3
  selector.loc[i, 'f1_val_stop']=(df_logloss['split_0_val']+df_logloss['split_1_val']+df_logloss['split_2_val']).argmin()
  \<close>
\<close>

definition record_point_AdamW ::
  "(real \<Rightarrow> real \<Rightarrow> real) \<Rightarrow> cv_output \<Rightarrow> nat \<Rightarrow> sel_row list \<Rightarrow> error + sel_row list" where
  "record_point_AdamW fadd output_pt i selector =
     (let df_f1 = unweighted_f1 output_pt;
          df_logloss = logloss output_pt;
          s1 = set_best_f1_val i (series_max (sum_splits fadd df_f1) / 3) selector
      in case series_argmax (sum_splits fadd df_f1) of
           Inl e \<Rightarrow> Inl e
         | Inr a \<Rightarrow>
             (let s2 = set_f1_val_stop i (int a) s1;
                  s3 = set_best_f1_val i (series_min (sum_splits fadd df_logloss) / 3) s2
              in case series_argmin (sum_splits fadd df_logloss) of
                   Inl e \<Rightarrow> Inl e
                 | Inr b \<Rightarrow> Inr (set_f1_val_stop i (int b) s3)))"

text \<open>
  The loop \<open>for i, pt in enumerate(tqdm(grid))\<close> of the two functions that train with
  momentum:
  \<^verbatim>\<open>
  model_pt=two_layer_classifier_do(num_labels=len(P05_t.Label.unique()), dr=pt[0])
  output_pt = crossvalid_nobar(model=model_pt, df=df, k_fold=3, lr=pt[1], m=pt[2], wd=pt[3])
  \<close>
  The constructor \<open>mk\<close> is given the dropout rate (the number of labels is that of a
  fixed global data set). The trainer \<open>cv\<close> is given the model, the data set and the
  three optimiser parameters; its first argument is the number of the call, since
  training draws random numbers and two calls on the same arguments need not agree.
  It always trains on \<open>k_fold=3\<close> folds. \<open>fadd\<close> is the addition of doubles.
\<close>

fun loop_sgd ::
  "(real \<Rightarrow> real \<Rightarrow> real) \<Rightarrow> (real \<Rightarrow> 'm) \<Rightarrow> (nat \<Rightarrow> 'm \<Rightarrow> 'd \<Rightarrow> real \<Rightarrow> real \<Rightarrow> real \<Rightarrow> cv_output) \<Rightarrow> 'd \<Rightarrow>
   (nat \<times> real list) list \<Rightarrow> sel_row list \<Rightarrow> error + sel_row list" where
  "loop_sgd fadd mk cv df [] selector = Inr selector"
| "loop_sgd fadd mk cv df ((i, pt) # rest) selector =
     (case pt_get pt 0 of
        Inl e \<Rightarrow> Inl e
      | Inr dr \<Rightarrow>
     (let model_pt = mk dr in
      case pt_get pt 1 of
        Inl e \<Rightarrow> Inl e
      | Inr lr \<Rightarrow>
     (case pt_get pt 2 of
        Inl e \<Rightarrow> Inl e
      | Inr m \<Rightarrow>
     (case pt_get pt 3 of
        Inl e \<Rightarrow> Inl e
      | Inr wd \<Rightarrow>
     (case record_point fadd (cv i model_pt df lr m wd) i selector of
        Inl e \<Rightarrow> Inl e
      | Inr selector' \<Rightarrow> loop_sgd fadd mk cv df rest selector')))))"

text \<open>
  The loop of the two functions that train with AdamW:
  \<^verbatim>\<open>
  model_pt=two_layer_classifier_do(num_labels=len(P05_t.Label.unique()), dr=pt[0])
  output_pt = crossvalid_AdamW_nobar(model=model_pt, df=df, k_fold=3, lr=pt[1], wd=pt[2])
  \<close>
\<close>

fun loop_AdamW ::
  "(real \<Rightarrow> real \<Rightarrow> real) \<Rightarrow> (real \<Rightarrow> 'm) \<Rightarrow> (nat \<Rightarrow> 'm \<Rightarrow> 'd \<Rightarrow> real \<Rightarrow> real \<Rightarrow> cv_output) \<Rightarrow> 'd \<Rightarrow>
   (nat \<times> real list) list \<Rightarrow> sel_row list \<Rightarrow> error + sel_row list" where
  "loop_AdamW fadd mk cv df [] selector = Inr selector"
| "loop_AdamW fadd mk cv df ((i, pt) # rest) selector =
     (case pt_get pt 0 of
        Inl e \<Rightarrow> Inl e
      | Inr dr \<Rightarrow>
     (let model_pt = mk dr in
      case pt_get pt 1 of
        Inl e \<Rightarrow> Inl e
      | Inr lr \<Rightarrow>
     (case pt_get pt 2 of
        Inl e \<Rightarrow> Inl e
      | Inr wd \<Rightarrow>
     (case record_point_AdamW fadd (cv i model_pt df lr wd) i selector of
        Inl e \<Rightarrow> Inl e
      | Inr selector' \<Rightarrow> loop_AdamW fadd mk cv df rest selector'))))"

text \<open>
  The four grid-search functions. Each builds the grid, creates \<open>selector\<close> with one
  row of zeros per grid point, runs its loop, and returns \<open>selector\<close> with the grid
  points as its index: a list of pairs of a grid point and its row.
\<close>

type_synonym selector_table = "(real list \<times> sel_row) list"

definition twolayergridsearch ::
  "(real \<Rightarrow> real \<Rightarrow> real) \<Rightarrow> (real \<Rightarrow> 'm) \<Rightarrow> (nat \<Rightarrow> 'm \<Rightarrow> 'd \<Rightarrow> real \<Rightarrow> real \<Rightarrow> real \<Rightarrow> cv_output) \<Rightarrow> 'd \<Rightarrow>
   hps \<Rightarrow> error + selector_table" where
  "twolayergridsearch fadd two_layer_classifier_do crossvalid_nobar df hps =
     (case build_grid hps of
        Inl e \<Rightarrow> Inl e
      | Inr grid \<Rightarrow>
          (case loop_sgd fadd two_layer_classifier_do crossvalid_nobar df (enumerate 0 grid)
                  (replicate (length grid) zero_row) of
             Inl e \<Rightarrow> Inl e
           | Inr selector \<Rightarrow> Inr (zip grid selector)))"

definition threelayergridsearch ::
  "(real \<Rightarrow> real \<Rightarrow> real) \<Rightarrow> (real \<Rightarrow> 'm) \<Rightarrow> (nat \<Rightarrow> 'm \<Rightarrow> 'd \<Rightarrow> real \<Rightarrow> real \<Rightarrow> real \<Rightarrow> cv_output) \<Rightarrow> 'd \<Rightarrow>
   hps \<Rightarrow> error + selector_table" where
  "threelayergridsearch fadd three_layer_classifier_do crossvalid_nobar df hps =
     (case build_grid hps of
        Inl e \<Rightarrow> Inl e
      | Inr grid \<Rightarrow>
          (case loop_sgd fadd three_layer_classifier_do crossvalid_nobar df (enumerate 0 grid)
                  (replicate (length grid) zero_row) of
             Inl e \<Rightarrow> Inl e
           | Inr selector \<Rightarrow> Inr (zip grid selector)))"

definition twolayergridsearch_AdamW ::
  "(real \<Rightarrow> real \<Rightarrow> real) \<Rightarrow> (real \<Rightarrow> 'm) \<Rightarrow> (nat \<Rightarrow> 'm \<Rightarrow> 'd \<Rightarrow> real \<Rightarrow> real \<Rightarrow> cv_output) \<Rightarrow> 'd \<Rightarrow>
   hps \<Rightarrow> error + selector_table" where
  "twolayergridsearch_AdamW fadd two_layer_classifier_do crossvalid_AdamW_nobar df hps =
     (case build_grid hps of
        Inl e \<Rightarrow> Inl e
      | Inr grid \<Rightarrow>
          (case loop_AdamW fadd two_layer_classifier_do crossvalid_AdamW_nobar df (enumerate 0 grid)
                  (replicate (length grid) zero_row) of
             Inl e \<Rightarrow> Inl e
           | Inr selector \<Rightarrow> Inr (zip grid selector)))"

definition threelayergridsearch_AdamW ::
  "(real \<Rightarrow> real \<Rightarrow> real) \<Rightarrow> (real \<Rightarrow> 'm) \<Rightarrow> (nat \<Rightarrow> 'm \<Rightarrow> 'd \<Rightarrow> real \<Rightarrow> real \<Rightarrow> cv_output) \<Rightarrow> 'd \<Rightarrow>
   hps \<Rightarrow> error + selector_table" where
  "threelayergridsearch_AdamW fadd three_layer_classifier_do crossvalid_AdamW_nobar df hps =
     (case build_grid hps of
        Inl e \<Rightarrow> Inl e
      | Inr grid \<Rightarrow>
          (case loop_AdamW fadd three_layer_classifier_do crossvalid_AdamW_nobar df (enumerate 0 grid)
                  (replicate (length grid) zero_row) of
             Inl e \<Rightarrow> Inl e
           | Inr selector \<Rightarrow> Inr (zip grid selector)))"

text \<open>
  The mean over the three folds of the metric after epoch \<open>e\<close>, in exact
  arithmetic.
\<close>

definition fold_mean :: "metric_df \<Rightarrow> nat \<Rightarrow> real" where
  "fold_mean d e = (split_0_val d ! e + split_1_val d ! e + split_2_val d ! e) / 3"

section \<open>Inputs of the notebook runs\<close>

text \<open>
  The specification of the first run of the notebook:
  \<open>hps={'dr': (1e-1,5e-1,5), 'lr': (1e-5, 1e-2, 6), 'm': (8e-1,9e-1,2), 'wd':(1e-5,1e-3,3)}\<close>
\<close>

definition hps_example :: hps where
  "hps_example = [(''dr'', (1/10, 1/2, 5)), (''lr'', (1/100000, 1/100, 6)),
                  (''m'', (8/10, 9/10, 2)), (''wd'', (1/100000, 1/1000, 3))]"

text \<open>
  The specification of the second run of the notebook, with the momentum fixed:
  \<open>hps3={'dr': (1e-1,5e-1,5), 'lr': (1e-5, 1e-2, 6), 'm': (9e-1,10e-1,1), 'wd':(1e-5,1e-3,3)}\<close>
\<close>

definition hps3 :: hps where
  "hps3 = [(''dr'', (1/10, 5/10, 5)), (''lr'', (1/100000, 1/100, 6)),
           (''m'', (9/10, 10/10, 1)), (''wd'', (1/100000, 1/1000, 3))]"

section \<open>Rows of the selector table\<close>

text \<open>
  The row that the six lines of \<open>record_point\<close> leave for a grid point whose trainer
  output is \<open>out\<close>, when no line raises.
\<close>

definition point_row :: "(real \<Rightarrow> real \<Rightarrow> real) \<Rightarrow> cv_output \<Rightarrow> sel_row" where
  "point_row fadd out =
     \<lparr>best_f1_val = Max (set (sum_splits fadd (unweighted_f1 out))) / 3,
      f1_val_stop = int (first_index (Max (set (sum_splits fadd (unweighted_f1 out))))
                           (sum_splits fadd (unweighted_f1 out))),
      best_logloss_val = Min (set (sum_splits fadd (logloss out))) / 3,
      logloss_val_stop = int (first_index (Min (set (sum_splits fadd (logloss out))))
                                (sum_splits fadd (logloss out)))\<rparr>"

text \<open>
  The trainer runs for \<open>n\<close> epochs on the data set \<open>df\<close>, whatever the model and
  the optimiser parameters are: \<open>n\<close> is the epoch budget.
\<close>

definition trains_for ::
  "nat \<Rightarrow> (nat \<Rightarrow> 'm \<Rightarrow> 'd \<Rightarrow> real \<Rightarrow> real \<Rightarrow> real \<Rightarrow> cv_output) \<Rightarrow> 'd \<Rightarrow> bool" where
  "trains_for n cv df = (\<forall>i model lr m wd. epochs n (cv i model df lr m wd))"

text \<open>
  The trainer output for the grid point \<open>pt\<close>, the \<open>i\<close>-th of the grid, and the
  row computed from it.
\<close>

definition output_sgd ::
  "(real \<Rightarrow> 'm) \<Rightarrow> (nat \<Rightarrow> 'm \<Rightarrow> 'd \<Rightarrow> real \<Rightarrow> real \<Rightarrow> real \<Rightarrow> cv_output) \<Rightarrow> 'd \<Rightarrow>
   nat \<Rightarrow> real list \<Rightarrow> cv_output" where
  "output_sgd mk cv df i pt = cv i (mk (pt ! 0)) df (pt ! 1) (pt ! 2) (pt ! 3)"

definition sgd_row ::
  "(real \<Rightarrow> real \<Rightarrow> real) \<Rightarrow> (real \<Rightarrow> 'm) \<Rightarrow> (nat \<Rightarrow> 'm \<Rightarrow> 'd \<Rightarrow> real \<Rightarrow> real \<Rightarrow> real \<Rightarrow> cv_output) \<Rightarrow> 'd \<Rightarrow>
   nat \<times> real list \<Rightarrow> sel_row" where
  "sgd_row fadd mk cv df ip = point_row fadd (output_sgd mk cv df (fst ip) (snd ip))"

text \<open>
  Concrete inputs: a model constructor that keeps the dropout rate, a trainer output
  of five epochs with ties on both curves, and trainers that return it for every grid
  point.
\<close>

definition model_example :: "real \<Rightarrow> real" where
  "model_example dr = dr"

definition output_example :: cv_output where
  "output_example =
     \<lparr>unweighted_f1 =
        \<lparr>split_0_val = [1/2, 9/10, 9/10, 7/10, 9/10],
         split_1_val = [1/2, 8/10, 8/10, 7/10, 8/10],
         split_2_val = [1/2, 7/10, 7/10, 7/10, 7/10]\<rparr>,
      logloss =
        \<lparr>split_0_val = [6/10, 5/10, 3/10, 3/10, 4/10],
         split_1_val = [6/10, 5/10, 2/10, 2/10, 4/10],
         split_2_val = [6/10, 5/10, 4/10, 4/10, 4/10]\<rparr>\<rparr>"

definition crossvalid_example ::
  "nat \<Rightarrow> real \<Rightarrow> unit \<Rightarrow> real \<Rightarrow> real \<Rightarrow> real \<Rightarrow> cv_output" where
  "crossvalid_example i model df lr m wd = output_example"

definition crossvalid_AdamW_example ::
  "nat \<Rightarrow> real \<Rightarrow> unit \<Rightarrow> real \<Rightarrow> real \<Rightarrow> cv_output" where
  "crossvalid_AdamW_example i model df lr wd = output_example"

text \<open>
  The specification of the end-to-end scenario, \<open>dr=(0.1, 0.5, 3)\<close> and
  \<open>lr=(1e-4, 1e-3, 2)\<close>; the same with a momentum and a weight-decay dimension of
  one point each; and a specification of one grid point for the AdamW functions.
\<close>

definition hps_two_dims :: hps where
  "hps_two_dims = [(''dr'', (1/10, 1/2, 3)), (''lr'', (1/10000, 1/1000, 2))]"

definition hps_four_dims :: "real \<Rightarrow> real \<Rightarrow> real \<Rightarrow> real \<Rightarrow> hps" where
  "hps_four_dims m_lo m_hi wd_lo wd_hi =
     [(''dr'', (1/10, 1/2, 3)), (''lr'', (1/10000, 1/1000, 2)),
      (''m'', (m_lo, m_hi, 1)), (''wd'', (wd_lo, wd_hi, 1))]"

definition hps_AdamW_example :: hps where
  "hps_AdamW_example =
     [(''dr'', (1/10, 1/2, 1)), (''lr'', (1/1000, 1/100, 1)), (''wd'', (1/1000, 1/10, 1))]"






section \<open>Hold-one-session-out validation (logistic-regression notebook)\<close>

text \<open>
  A fitted classifier, as far as the loop reads it: \<open>est.steps[1][1].classes_\<close>, the
  labels that occurred in the data it was fitted on, and \<open>est.predict_proba\<close>, which
  maps samples to a matrix with one row per sample and one column per entry of
  \<open>classes_\<close>. Labels are positions in \<open>label_list\<close>. A matrix is the list of its
  rows.
\<close>

record 'x estimator =
  est_classes :: "nat list"
  predict_proba :: "'x list \<Rightarrow> real list list"

text \<open>
  The field \<open>est_classes\<close> stands for \<open>classes_\<close>. The shape that scikit-learn promises for the result of \<open>predict_proba\<close> on the
  samples \<open>xs\<close>.
\<close>

definition proba_shape :: "'x estimator \<Rightarrow> 'x list \<Rightarrow> bool" where
  "proba_shape est xs =
     (length (predict_proba est xs) = length xs \<and>
      (\<forall>row\<in>set (predict_proba est xs). length row = length (est_classes est)))"

text \<open>\<open>classes_.tolist().index(n)\<close>: the first position of \<open>n\<close>, or \<open>ValueError\<close>.\<close>

definition list_index :: "nat list \<Rightarrow> nat \<Rightarrow> error + nat" where
  "list_index xs n =
     (if n \<in> set xs then Inr (length (takeWhile (\<lambda>x. x \<noteq> n) xs)) else Inl ValueError)"

text \<open>\<open>pred[:, k]\<close>: column \<open>k\<close> of a matrix, or \<open>IndexError\<close> when it has no such column.\<close>

definition column :: "real list list \<Rightarrow> nat \<Rightarrow> error + real list" where
  "column m k =
     (if \<forall>row\<in>set m. k < length row then Inr (map (\<lambda>row. row ! k) m) else Inl IndexError)"

text \<open>
  \<open>np.vstack\<close> of a list of vectors raises \<open>ValueError\<close> when the list is empty or
  the vectors differ in length; \<open>.T\<close> transposes the matrix it returns.
\<close>

definition vstack :: "real list list \<Rightarrow> error + real list list" where
  "vstack arrs =
     (if arrs = [] then Inl ValueError
      else if \<forall>a\<in>set arrs. length a = length (hd arrs) then Inr arrs
      else Inl ValueError)"

definition T_array :: "real list list \<Rightarrow> real list list" where
  "T_array m = map (\<lambda>j. map (\<lambda>row. row ! j) m) [0..<length (hd m)]"

text \<open>
  The element of \<open>pred_list\<close> for the label \<open>n\<close>:
  \<^verbatim>\<open>
  pred[:, est.steps[1][1].classes_.tolist().index(n)]
  if n in est.steps[1][1].classes_
  else np.zeros(mask.sum())
  \<close>
\<close>

definition pred_column :: "'x estimator \<Rightarrow> real list list \<Rightarrow> nat \<Rightarrow> nat \<Rightarrow> error + real list" where
  "pred_column est pred mask_sum n =
     (if n \<in> set (est_classes est)
      then (case list_index (est_classes est) n of Inl e \<Rightarrow> Inl e | Inr k \<Rightarrow> column pred k)
      else Inr (replicate mask_sum 0))"

text \<open>
  The handling of labels that are missing from the training data of a fold
  (hold-one-session-out loop of the logistic-regression notebook):
  \<^verbatim>\<open>
  pred_list = []
  for n in range(len(label_list)):
      pred_list.append(...)
  pred = np.vstack(pred_list).T
  \<close>
\<close>

definition fill_missing :: "nat \<Rightarrow> 'x estimator \<Rightarrow> real list list \<Rightarrow> nat \<Rightarrow> error + real list list" where
  "fill_missing n_labels est pred mask_sum =
     (case collect (map (pred_column est pred mask_sum) [0..<n_labels]) of
        Inl e \<Rightarrow> Inl e
      | Inr pred_list \<Rightarrow>
          (case vstack pred_list of Inl e \<Rightarrow> Inl e | Inr m \<Rightarrow> Inr (T_array m)))"

text \<open>
  The vector that the loop appends for the label \<open>n\<close>, when the matrix has the
  promised shape.
\<close>

definition label_column :: "'x estimator \<Rightarrow> real list list \<Rightarrow> nat \<Rightarrow> nat \<Rightarrow> real list" where
  "label_column est pred mask_sum n =
     (if n \<in> set (est_classes est)
      then map (\<lambda>row. row ! length (takeWhile (\<lambda>x. x \<noteq> n) (est_classes est))) pred
      else replicate mask_sum 0)"

text \<open>
  \<open>mask = session_tr == session\<close>, \<open>mask.sum()\<close>, and indexing an array by a
  boolean mask, which raises \<open>IndexError\<close> when the mask has another length than
  the array.
\<close>

definition session_mask :: "'s list \<Rightarrow> 's \<Rightarrow> bool list" where
  "session_mask session_tr session = map (\<lambda>s. s = session) session_tr"

definition sum_mask :: "bool list \<Rightarrow> nat" where
  "sum_mask msk = length (filter (\<lambda>b. b) msk)"

definition select :: "bool list \<Rightarrow> 'a list \<Rightarrow> error + 'a list" where
  "select msk xs =
     (if length msk = length xs then Inr (map snd (filter fst (zip msk xs)))
      else Inl IndexError)"

text \<open>
  \<open>pred_prob\<close> starts as a matrix of NaN and is only ever written by whole rows, so
  a row is \<open>None\<close> while it is NaN and \<open>Some\<close> of its values afterwards.
  \<open>pred_prob[mask] = pred\<close> writes the rows of \<open>pred\<close>, in order, to the rows that
  the mask selects; the mask must have one entry per row (\<open>IndexError\<close>) and
  \<open>pred\<close> the shape of the selected part (\<open>ValueError\<close>).
\<close>

fun assign_rows :: "bool list \<Rightarrow> 'a list \<Rightarrow> 'a option list \<Rightarrow> 'a option list" where
  "assign_rows (True # msk) (v # vals) (p # arr) = Some v # assign_rows msk vals arr"
| "assign_rows (False # msk) vals (p # arr) = p # assign_rows msk vals arr"
| "assign_rows msk vals arr = arr"

definition assign_mask ::
  "nat \<Rightarrow> bool list \<Rightarrow> real list list \<Rightarrow> real list option list \<Rightarrow> error + real list option list" where
  "assign_mask n_cols msk vals arr =
     (if length msk \<noteq> length arr then Inl IndexError
      else if length vals = sum_mask msk \<and> (\<forall>row\<in>set vals. length row = n_cols)
      then Inr (assign_rows msk vals arr)
      else Inl ValueError)"

text \<open>
  The hold-one-session-out loop. \<open>fit\<close> stands for creating the pipeline and calling
  \<open>est.fit(X_tr[~mask], y_tr[~mask])\<close>, which may raise.
  \<^verbatim>\<open>
  for session in tqdm(np.unique(session_tr)):
      mask = session_tr == session
      est = make_pipeline(StandardScaler(), LogisticRegression(C=C, max_iter=10**6))
      est.fit(X_tr[~mask], y_tr[~mask])
      pred = est.predict_proba(X_tr[mask])
      ...
      pred = np.vstack(pred_list).T
      pred_prob[mask] = pred
  \<close>
\<close>

fun session_loop ::
  "('x list \<Rightarrow> nat list \<Rightarrow> error + 'x estimator) \<Rightarrow> nat \<Rightarrow> 'x list \<Rightarrow> nat list \<Rightarrow> 's list \<Rightarrow>
   's list \<Rightarrow> real list option list \<Rightarrow> error + real list option list" where
  "session_loop fit n_labels X_tr y_tr session_tr [] pred_prob = Inr pred_prob"
| "session_loop fit n_labels X_tr y_tr session_tr (session # rest) pred_prob =
     (let msk = session_mask session_tr session in
      case select (map Not msk) X_tr of
        Inl e \<Rightarrow> Inl e
      | Inr X_fit \<Rightarrow>
     (case select (map Not msk) y_tr of
        Inl e \<Rightarrow> Inl e
      | Inr y_fit \<Rightarrow>
     (case fit X_fit y_fit of
        Inl e \<Rightarrow> Inl e
      | Inr est \<Rightarrow>
     (case select msk X_tr of
        Inl e \<Rightarrow> Inl e
      | Inr X_val \<Rightarrow>
     (case fill_missing n_labels est (predict_proba est X_val) (sum_mask msk) of
        Inl e \<Rightarrow> Inl e
      | Inr pred \<Rightarrow>
     (case assign_mask n_labels msk pred pred_prob of
        Inl e \<Rightarrow> Inl e
      | Inr pred_prob' \<Rightarrow>
          session_loop fit n_labels X_tr y_tr session_tr rest pred_prob'))))))"

text \<open>
  The whole cell up to the assertion: \<open>pred_prob\<close> is created with one row of NaN
  per training sample, the loop runs over the sorted distinct sessions, and
  \<open>assert not np.isnan(pred_prob).any()\<close> raises when a row was never written.
\<close>

definition hold_one_session_out ::
  "('x list \<Rightarrow> nat list \<Rightarrow> error + 'x estimator) \<Rightarrow> nat \<Rightarrow> 'x list \<Rightarrow> nat list \<Rightarrow>
   ('s::linorder) list \<Rightarrow> error + real list list" where
  "hold_one_session_out fit n_labels X_tr y_tr session_tr =
     (case session_loop fit n_labels X_tr y_tr session_tr
             (sorted_list_of_set (set session_tr)) (replicate (length X_tr) None) of
        Inl e \<Rightarrow> Inl e
      | Inr pred_prob \<Rightarrow>
          if None \<in> set pred_prob then Inl AssertionError else Inr (map the pred_prob))"

text \<open>
  For the statement of the claim: the training and the validation samples of the
  fold of a session, the position of sample \<open>i\<close> among the validation samples of
  its fold, and the row that the loop body computes for it.
\<close>

definition train_X :: "'x list \<Rightarrow> 's list \<Rightarrow> 's \<Rightarrow> 'x list" where
  "train_X X_tr session_tr session = map snd (filter (\<lambda>(s, x). s \<noteq> session) (zip session_tr X_tr))"

definition train_y :: "nat list \<Rightarrow> 's list \<Rightarrow> 's \<Rightarrow> nat list" where
  "train_y y_tr session_tr session = map snd (filter (\<lambda>(s, y). s \<noteq> session) (zip session_tr y_tr))"

definition val_X :: "'x list \<Rightarrow> 's list \<Rightarrow> 's \<Rightarrow> 'x list" where
  "val_X X_tr session_tr session = map snd (filter (\<lambda>(s, x). s = session) (zip session_tr X_tr))"

definition val_position :: "'s list \<Rightarrow> nat \<Rightarrow> nat" where
  "val_position session_tr i = length (filter (\<lambda>s. s = session_tr ! i) (take i session_tr))"

text \<open>
  The matrix \<open>pred\<close> at the end of the loop body, for the classifier \<open>est\<close> and
  the validation samples \<open>X_val\<close> of a fold.
\<close>

definition fold_rows :: "nat \<Rightarrow> 'x estimator \<Rightarrow> 'x list \<Rightarrow> real list list" where
  "fold_rows n_labels est X_val =
     map (\<lambda>j. map (\<lambda>n. label_column est (predict_proba est X_val) (length X_val) n ! j)
                [0..<n_labels])
         [0..<length X_val]"

text \<open>
  In the fold of a session, fitting on the other sessions succeeds with the classifier
  \<open>est session\<close>, whose probabilities for the samples of the session have the
  promised shape.
\<close>

definition fits ::
  "('x list \<Rightarrow> nat list \<Rightarrow> error + 'x estimator) \<Rightarrow> 'x list \<Rightarrow> nat list \<Rightarrow> 's list \<Rightarrow>
   ('s \<Rightarrow> 'x estimator) \<Rightarrow> 's \<Rightarrow> bool" where
  "fits fit X_tr y_tr session_tr est session =
     (fit (train_X X_tr session_tr session) (train_y y_tr session_tr session) = Inr (est session) \<and>
      proba_shape (est session) (val_X X_tr session_tr session))"

text \<open>
  Concrete input: six samples of two sessions and three labels, where label 2 only
  occurs in session 1, and a classifier that needs two classes (as logistic
  regression does) and predicts the uniform distribution on the classes it has seen.
\<close>

definition fit_example :: "nat list \<Rightarrow> nat list \<Rightarrow> error + nat estimator" where
  "fit_example X y =
     (let cs = sort (remdups y)
      in if length cs < 2 then Inl ValueError
         else Inr \<lparr>est_classes = cs,
                   predict_proba = (\<lambda>xs. map (\<lambda>x. replicate (length cs) (1 / real (length cs))) xs)\<rparr>)"

definition X_example :: "nat list" where
  "X_example = [10, 11, 12, 13, 14, 15]"

definition y_example :: "nat list" where
  "y_example = [0, 1, 2, 0, 1, 1]"

definition session_example :: "nat list" where
  "session_example = [1, 1, 1, 2, 2, 2]"

definition est_example :: "nat \<Rightarrow> nat estimator" where
  "est_example session =
     (if session = 1
      then \<lparr>est_classes = [0, 1], predict_proba = (\<lambda>xs. map (\<lambda>x. [1 / 2, 1 / 2]) xs)\<rparr>
      else \<lparr>est_classes = [0, 1, 2], predict_proba = (\<lambda>xs. map (\<lambda>x. [1 / 3, 1 / 3, 1 / 3]) xs)\<rparr>)"

section \<open>Moving small sessions to the test set (train-test notebook)\<close>

text \<open>
  The table of the train-test notebook: one row per recording, with the columns
  \<open>Filename\<close>, \<open>is_test\<close> (0 or 1 in the CSV file), \<open>Session\<close> (added by the
  notebook) and the remaining columns, which the notebook never reads.
\<close>

record 'a row =
  Filename :: string
  is_test :: int
  Session :: string
  other :: 'a

text \<open>
  \<^verbatim>\<open>
  def get_session(filename: str) -> str:
    return filename.split('-')[0][:-3]
  \<close>
  \<open>split('-')[0]\<close> is the part before the first \<open>-\<close> (all of the name when it
  has none), and \<open>[:-3]\<close> drops the last three characters (all of them when there
  are at most three).
\<close>

definition get_session :: "string \<Rightarrow> string" where
  "get_session filename =
     (let head = takeWhile (\<lambda>c. c \<noteq> CHR ''-'') filename
      in take (length head - 3) head)"

text \<open>\<open>old_df['Session'] = old_df.Filename.apply(get_session)\<close>\<close>

definition with_session :: "'a row list \<Rightarrow> 'a row list" where
  "with_session old_df = map (\<lambda>r. r\<lparr>Session := get_session (Filename r)\<rparr>) old_df"

text \<open>
  \<open>value_counts\<close> of a column: the distinct values that occur, each with the number
  of its occurrences (pandas orders them by that number, which the notebook does not
  use).
\<close>

definition value_counts :: "string list \<Rightarrow> (string \<times> nat) list" where
  "value_counts xs = map (\<lambda>s. (s, length (filter (\<lambda>x. x = s) xs))) (remdups xs)"

text \<open>\<open>session_counts = old_df.loc[old_df.is_test==0].Session.value_counts()\<close>\<close>

definition session_counts :: "'a row list \<Rightarrow> (string \<times> nat) list" where
  "session_counts old_df = value_counts (map Session (filter (\<lambda>r. is_test r = 0) old_df))"

text \<open>
  \<^verbatim>\<open>
  new_df = old_df.copy()
  new_df.loc[new_df.Session.isin(session_counts[session_counts < 15].index), 'is_test'] = 1
  \<close>
\<close>

definition new_df :: "'a row list \<Rightarrow> 'a row list" where
  "new_df old_df =
     (let small = map fst (filter (\<lambda>(s, c). c < 15) (session_counts old_df))
      in map (\<lambda>r. if Session r \<in> set small then r\<lparr>is_test := 1\<rparr> else r) old_df)"

text \<open>The notebook from the table it reads to the table it writes.\<close>

definition small_sessions :: "'a row list \<Rightarrow> 'a row list" where
  "small_sessions csv = new_df (with_session csv)"

text \<open>
  The number of rows of the session \<open>s\<close> among the rows that are not in the test set.
\<close>

definition non_test_rows :: "'a row list \<Rightarrow> string \<Rightarrow> nat" where
  "non_test_rows df s = length (filter (\<lambda>r. is_test r = 0 \<and> get_session (Filename r) = s) df)"

text \<open>Concrete input: two recordings of one session, one of them in the test set.\<close>

definition csv_example :: "unit row list" where
  "csv_example =
     [\<lparr>Filename = ''200126_2142_00-13-04.06--00-13-04.324.wav'', is_test = 0,
       Session = [], other = ()\<rparr>,
      \<lparr>Filename = ''200126_2142_00-06-16.59--00-06-17.02.wav'', is_test = 1,
       Session = [], other = ()\<rparr>]"

section \<open>Properties of the range generator and the grid\<close>

lemma linspace_length:
  "linspace a b c = Inr xs \<Longrightarrow> int (length xs) = c"
  by (auto simp: linspace_def Let_def split: if_splits)

lemma linspace_total:
  "0 \<le> c \<Longrightarrow> \<exists>xs. linspace a b c = Inr xs"
  by (simp add: linspace_def Let_def)

lemma linspace_error:
  "c < 0 \<Longrightarrow> linspace a b c = Inl ValueError"
  by (simp add: linspace_def)

lemma linspace_one:
  "linspace a b 1 = Inr [a]"
  by (simp add: linspace_def Let_def)

lemma collect_map_Inr:
  "collect (map Inr xs) = Inr xs"
  by (induction xs) simp_all

lemma collect_Inr_D:
  "collect rs = Inr xs \<Longrightarrow> rs = map Inr xs"
  by (induction rs arbitrary: xs) (auto split: sum.splits)

lemma collect_Inr_iff:
  "collect rs = Inr xs \<longleftrightarrow> rs = map Inr xs"
  using collect_map_Inr collect_Inr_D by metis

lemma collect_total:
  "(\<forall>r\<in>set rs. \<exists>x. r = Inr x) \<Longrightarrow> \<exists>xs. collect rs = Inr xs"
  by (induction rs) (auto split: sum.splits)

lemma collect_error:
  "collect rs = Inl e \<Longrightarrow> Inl e \<in> set rs"
  by (induction rs) (auto split: sum.splits)

lemma it_product_length:
  "length (it_product xss) = prod_list (map length xss)"
proof (induction xss)
  case Nil
  show ?case by simp
next
  case (Cons xs xss)
  have "length (concat (map (\<lambda>x. map (\<lambda>p. x # p) (it_product xss)) xs))
        = length xs * length (it_product xss)"
    by (induction xs) simp_all
  with Cons show ?case by simp
qed

lemma it_product_point_length:
  "p \<in> set (it_product xss) \<Longrightarrow> length p = length xss"
  by (induction xss arbitrary: p) auto

lemma range_hp_length:
  "map_of hps hp = Some (lo, hi, c) \<Longrightarrow> range_hp hps hp = Inr xs \<Longrightarrow> int (length xs) = c"
  by (auto simp: range_hp_def split: sum.splits dest: linspace_length)

lemma range_hp_total:
  "map_of hps hp = Some (lo, hi, c) \<Longrightarrow> 0 \<le> c \<Longrightarrow> \<exists>xs. range_hp hps hp = Inr xs"
  using linspace_total [of c "log 10 lo" "log 10 hi"]
  by (auto simp: range_hp_def)

lemma range_hp_negative:
  "map_of hps hp = Some (lo, hi, c) \<Longrightarrow> c < 0 \<Longrightarrow> range_hp hps hp = Inl ValueError"
  by (simp add: range_hp_def linspace_error)

lemma map_of_entry:
  "hps_ok hps \<Longrightarrow> (k, v) \<in> set hps \<Longrightarrow> map_of hps k = Some v"
  by (simp add: hps_ok_def)

lemma ranges_list_lengths:
  assumes "hps_ok hps" and "ranges_list hps = Inr rl"
  shows "map (\<lambda>xs. int (length xs)) rl = counts hps"
proof -
  from assms(2) have eq: "map (range_hp hps) (keys hps) = map Inr rl"
    by (simp add: ranges_list_def collect_Inr_iff)
  then have len: "length rl = length hps"
    by (metis length_map keys_def)
  show ?thesis
  proof (rule nth_equalityI)
    show "length (map (\<lambda>xs. int (length xs)) rl) = length (counts hps)"
      using len by (simp add: counts_def)
  next
    fix i assume "i < length (map (\<lambda>xs. int (length xs)) rl)"
    then have i: "i < length hps" using len by simp
    obtain k lo hi c where e: "hps ! i = (k, lo, hi, c)"
      by (cases "hps ! i") auto
    with i have "(k, lo, hi, c) \<in> set hps" by (metis nth_mem)
    with assms(1) have m: "map_of hps k = Some (lo, hi, c)" by (rule map_of_entry)
    from eq i e have "range_hp hps k = Inr (rl ! i)"
      by (metis (no_types, lifting) fst_conv keys_def len length_map nth_map)
    with m have "int (length (rl ! i)) = c" by (rule range_hp_length)
    with i len e show "map (\<lambda>xs. int (length xs)) rl ! i = counts hps ! i"
      by (simp add: counts_def)
  qed
qed

lemma ranges_list_total:
  assumes "hps_ok hps" and "\<forall>c\<in>set (counts hps). 0 \<le> c"
  shows "\<exists>rl. ranges_list hps = Inr rl"
proof -
  have "\<forall>r\<in>set (map (range_hp hps) (keys hps)). \<exists>x. r = Inr x"
  proof
    fix r assume "r \<in> set (map (range_hp hps) (keys hps))"
    then obtain k v where kv: "(k, v) \<in> set hps" and r: "r = range_hp hps k"
      by (auto simp: keys_def)
    obtain lo hi c where v: "v = (lo, hi, c)" by (cases v) auto
    from kv v assms(2) have "0 \<le> c" by (force simp: counts_def)
    moreover from assms(1) kv v have "map_of hps k = Some (lo, hi, c)"
      by (simp add: map_of_entry)
    ultimately show "\<exists>x. r = Inr x" using r range_hp_total by blast
  qed
  then show ?thesis unfolding ranges_list_def by (rule collect_total)
qed

lemma prod_list_int_length:
  "int (prod_list (map length rl)) = prod_list (map (\<lambda>xs. int (length xs)) rl)"
  by (induction rl) simp_all

lemma build_grid_length:
  assumes "hps_ok hps" and "build_grid hps = Inr grid"
  shows "int (length grid) = prod_list (counts hps)"
proof -
  from assms(2) obtain rl where rl: "ranges_list hps = Inr rl" and g: "grid = it_product rl"
    by (auto simp: build_grid_def split: sum.splits)
  from g have "int (length grid) = prod_list (map (\<lambda>xs. int (length xs)) rl)"
    by (simp add: it_product_length prod_list_int_length)
  with ranges_list_lengths [OF assms(1) rl] show ?thesis by simp
qed

lemma build_grid_point_length:
  assumes "build_grid hps = Inr grid" and "pt \<in> set grid"
  shows "length pt = length hps"
proof -
  from assms(1) obtain rl where rl: "ranges_list hps = Inr rl" and g: "grid = it_product rl"
    by (auto simp: build_grid_def split: sum.splits)
  from rl have "map (range_hp hps) (keys hps) = map Inr rl"
    by (simp add: ranges_list_def collect_Inr_iff)
  then have "length rl = length hps" by (metis length_map keys_def)
  with g assms(2) show ?thesis by (simp add: it_product_point_length)
qed

lemma build_grid_total:
  assumes "hps_ok hps" and "\<forall>c\<in>set (counts hps). 0 \<le> c"
  shows "\<exists>grid. build_grid hps = Inr grid"
  using ranges_list_total [OF assms] by (auto simp: build_grid_def)

text \<open>
  C3. For a hyperparameter specification with non-negative counts, the grid-search
  functions build a grid, and its size is the product of the counts of the dimensions.
\<close>

theorem grid_size:
  assumes "hps_ok hps" and "\<forall>c\<in>set (counts hps). 0 \<le> c"
  shows "\<exists>grid. build_grid hps = Inr grid \<and> int (length grid) = prod_list (counts hps)"
  using build_grid_total [OF assms] build_grid_length [OF assms(1)] by blast

theorem grid_size_witness:
  "\<exists>grid. build_grid hps_example = Inr grid \<and> int (length grid) = 180"
proof -
  have ok: "hps_ok hps_example" by (simp add: hps_example_def hps_ok_def)
  have nn: "\<forall>c\<in>set (counts hps_example). 0 \<le> c" by (simp add: hps_example_def counts_def)
  have "prod_list (counts hps_example) = 180" by (simp add: hps_example_def counts_def)
  with grid_size [OF ok nn] show ?thesis by simp
qed

lemma linspace_ge2:
  assumes "2 \<le> c"
  shows "linspace a b c = Inr (map (\<lambda>i. real i * ((b - a) / real_of_int (c - 1)) + a) [0..<nat c])"
proof -
  let ?n = "nat c"
  let ?f = "\<lambda>i. real i * ((b - a) / real_of_int (c - 1)) + a"
  have n: "real (?n - 1) = real_of_int (c - 1)" using assms by (simp add: of_nat_diff)
  have last: "?f (?n - 1) = b" using assms n by simp
  have "(map ?f [0..<?n])[?n - 1 := b] = map ?f [0..<?n]"
  proof (rule nth_equalityI)
    show "length ((map ?f [0..<?n])[?n - 1 := b]) = length (map ?f [0..<?n])" by simp
  next
    fix i assume "i < length ((map ?f [0..<?n])[?n - 1 := b])"
    then have i: "i < ?n" by simp
    show "(map ?f [0..<?n])[?n - 1 := b] ! i = map ?f [0..<?n] ! i"
    proof (cases "i = ?n - 1")
      case True
      with i last show ?thesis by simp
    next
      case False
      with i show ?thesis by simp
    qed
  qed
  with assms show ?thesis by (simp add: linspace_def Let_def)
qed

lemma linspace_ends:
  assumes "2 \<le> c" and "linspace a b c = Inr xs"
  shows "hd xs = a" and "last xs = b"
proof -
  let ?n = "nat c"
  let ?f = "\<lambda>i. real i * ((b - a) / real_of_int (c - 1)) + a"
  from assms linspace_ge2 [OF assms(1), of a b] have xs: "xs = map ?f [0..<?n]" by simp
  have pos: "0 < ?n" using assms(1) by simp
  then have ne: "[0..<?n] \<noteq> []" by simp
  have n: "real (?n - 1) = real_of_int (c - 1)" using assms by (simp add: of_nat_diff)
  show "hd xs = a" using xs ne pos by (simp add: hd_map)
  have "last xs = ?f (?n - 1)" using xs ne pos by (simp add: last_map)
  also have "\<dots> = b" using assms(1) n by simp
  finally show "last xs = b" .
qed

lemma linspace_strict:
  assumes "2 \<le> c" and "a < b" and "linspace a b c = Inr xs"
  shows "sorted_wrt (<) xs"
proof -
  define s where "s = (b - a) / real_of_int (c - 1)"
  define f where "f = (\<lambda>i. real i * s + a)"
  from assms linspace_ge2 [OF assms(1), of a b]
  have xs: "xs = map f [0..<nat c]" by (simp add: f_def s_def)
  have s: "0 < s" using assms by (simp add: s_def)
  have "f i < f j" if "i < j" for i j
  proof -
    from that have "real i < real j" by simp
    then have "real i * s < real j * s" using s by (rule mult_strict_right_mono)
    then show ?thesis by (simp add: f_def)
  qed
  then show ?thesis unfolding xs sorted_wrt_iff_nth_less by simp
qed

lemma linspace_mono:
  assumes "2 \<le> c" and "a \<le> b" and "linspace a b c = Inr xs"
  shows "sorted_wrt (\<le>) xs"
proof -
  define s where "s = (b - a) / real_of_int (c - 1)"
  define f where "f = (\<lambda>i. real i * s + a)"
  from assms linspace_ge2 [OF assms(1), of a b]
  have xs: "xs = map f [0..<nat c]" by (simp add: f_def s_def)
  have s: "0 \<le> s" using assms by (simp add: s_def)
  have "f i \<le> f j" if "i < j" for i j
  proof -
    from that have "real i \<le> real j" by simp
    with s have "real i * s \<le> real j * s" by (simp add: mult_right_mono)
    then show ?thesis by (simp add: f_def)
  qed
  then show ?thesis unfolding xs sorted_wrt_iff_nth_less by simp
qed

lemma sorted_wrt_map_powr_less:
  "sorted_wrt (<) (xs :: real list) \<Longrightarrow> sorted_wrt (<) (map (\<lambda>x. 10 powr x) xs)"
  by (simp add: sorted_wrt_map) 

lemma sorted_wrt_map_powr_le:
  "sorted_wrt (\<le>) (xs :: real list) \<Longrightarrow> sorted_wrt (\<le>) (map (\<lambda>x. 10 powr x) xs)"
  by (simp add: sorted_wrt_map)

text \<open>
  C4, as amended. For a dimension with bounds \<open>0 < low \<le> high\<close> and a count of at
  least 2, the generator returns a sequence that never decreases, and that strictly
  increases when \<open>low < high\<close>; its first element is \<open>low\<close> and its last element
  is \<open>high\<close>.
\<close>

theorem range_hp_monotone:
  assumes "map_of hps hp = Some (lo, hi, c)" and "0 < lo" and "lo \<le> hi" and "2 \<le> c"
  shows "\<exists>xs. range_hp hps hp = Inr xs \<and> sorted_wrt (\<le>) xs \<and>
           (lo < hi \<longrightarrow> sorted_wrt (<) xs) \<and> hd xs = lo \<and> last xs = hi"
proof -
  from assms(4) obtain ys where ys: "linspace (log 10 lo) (log 10 hi) c = Inr ys"
    using linspace_total [of c] by force
  from ys have len: "int (length ys) = c" by (rule linspace_length)
  with assms(4) have ne: "ys \<noteq> []" by auto
  have le: "log 10 lo \<le> log 10 hi" using assms(2,3) by simp
  have r: "range_hp hps hp = Inr (map (\<lambda>x. 10 powr x) ys)"
    using assms(1) ys by (simp add: range_hp_def)
  have 1: "sorted_wrt (\<le>) (map (\<lambda>x. 10 powr x) ys)"
    using linspace_mono [OF assms(4) le ys] by (rule sorted_wrt_map_powr_le)
  have 2: "lo < hi \<longrightarrow> sorted_wrt (<) (map (\<lambda>x. 10 powr x) ys)"
  proof
    assume "lo < hi"
    with assms(2) have "log 10 lo < log 10 hi" by simp
    from linspace_strict [OF assms(4) this ys]
    show "sorted_wrt (<) (map (\<lambda>x. 10 powr x) ys)" by (rule sorted_wrt_map_powr_less)
  qed
  have 3: "hd (map (\<lambda>x. 10 powr x) ys) = lo"
    using ne linspace_ends(1) [OF assms(4) ys] assms(2) by (simp add: hd_map)
  have 4: "last (map (\<lambda>x. 10 powr x) ys) = hi"
    using ne linspace_ends(2) [OF assms(4) ys] assms(2,3) by (simp add: last_map)
  from r 1 2 3 4 show ?thesis by blast
qed

text \<open>
  C9. For a dimension with positive bounds and count 1, the generator returns the
  single value \<open>low\<close>, whatever \<open>high\<close> is.
\<close>

theorem range_hp_single:
  assumes "map_of hps hp = Some (lo, hi, 1)" and "0 < lo" and "0 < hi"
  shows "range_hp hps hp = Inr [lo]"
  using assms by (simp add: range_hp_def linspace_one)

theorem range_hp_single_witness:
  "range_hp hps3 ''m'' = Inr [9/10]"
proof -
  have m: "map_of hps3 ''m'' = Some (9/10, 10/10, 1)" by (simp add: hps3_def)
  have lo: "(0::real) < 9/10" by simp
  have hi: "(0::real) < 10/10" by simp
  from range_hp_single [OF m lo hi] show ?thesis .
qed

theorem range_hp_monotone_witness:
  "\<exists>xs. range_hp hps3 ''dr'' = Inr xs \<and> sorted_wrt (\<le>) xs \<and>
           sorted_wrt (<) xs \<and> hd xs = 1/10 \<and> last xs = 5/10"
proof -
  have m: "map_of hps3 ''dr'' = Some (1/10, 5/10, 5)" by (simp add: hps3_def)
  have lo: "(0::real) < 1/10" by simp
  have le: "(1/10::real) \<le> 5/10" by simp
  have c: "(2::int) \<le> 5" by simp
  from range_hp_monotone [OF m lo le c] show ?thesis by simp
qed

text \<open>
  C4 as stated fails: with count 1 the last element is \<open>low\<close>, not \<open>high\<close>, and
  with \<open>low > high\<close> the sequence decreases.
\<close>

theorem range_hp_last_counterexample:
  "range_hp [(''dr'', (1/10, 1/2, 1))] ''dr'' = Inr [1/10] \<and>
   range_hp [(''dr'', (10, 1, 2))] ''dr'' = Inr [10, 1]"
  by (simp add: range_hp_def linspace_def Let_def upt_rec)

section \<open>Properties of the grid-search functions\<close>

lemma sum_splits_length:
  "length (split_0_val d) = n \<Longrightarrow> length (split_1_val d) = n \<Longrightarrow> length (split_2_val d) = n
   \<Longrightarrow> length (sum_splits fadd d) = n"
  by (simp add: sum_splits_def series_add_def)

lemma sum_splits_nth:
  assumes "length (split_0_val d) = n" and "length (split_1_val d) = n"
    and "length (split_2_val d) = n" and "e < n"
  shows "sum_splits (+) d ! e = 3 * fold_mean d e"
  using assms by (simp add: sum_splits_def series_add_def fold_mean_def)

lemma row_overwrite:
  "(r :: sel_row)\<lparr>best_f1_val := a, f1_val_stop := b, best_logloss_val := c, logloss_val_stop := d\<rparr>
   = \<lparr>best_f1_val = a, f1_val_stop = b, best_logloss_val = c, logloss_val_stop = d\<rparr>"
  by (cases r) simp

lemma record_point_ok:
  assumes "i < length selector" and "sum_splits fadd (unweighted_f1 out) \<noteq> []"
    and "sum_splits fadd (logloss out) \<noteq> []"
  shows "record_point fadd out i selector = Inr (selector[i := point_row fadd out])"
  using assms
  by (simp add: record_point_def Let_def series_argmax_def series_argmin_def
      set_best_f1_val_def set_f1_val_stop_def set_best_logloss_val_def
      set_logloss_val_stop_def series_max_def series_min_def point_row_def row_overwrite)

lemma epochs_nonempty:
  assumes "epochs n out" and "0 < n"
  shows "sum_splits fadd (unweighted_f1 out) \<noteq> []" and "sum_splits fadd (logloss out) \<noteq> []"
proof -
  from assms(1) have "length (sum_splits fadd (unweighted_f1 out)) = n"
    by (simp add: epochs_def sum_splits_length)
  with assms(2) show "sum_splits fadd (unweighted_f1 out) \<noteq> []" by auto
  from assms(1) have "length (sum_splits fadd (logloss out)) = n"
    by (simp add: epochs_def sum_splits_length)
  with assms(2) show "sum_splits fadd (logloss out) \<noteq> []" by auto
qed

lemma loop_sgd_enumerate:
  assumes "\<forall>pt\<in>set pts. 4 \<le> length pt"
    and "trains_for n cv df"
    and "0 < n"
    and "k + length pts \<le> length selector"
  shows "loop_sgd fadd mk cv df (enumerate k pts) selector =
           Inr (take k selector @ map (sgd_row fadd mk cv df) (enumerate k pts)
                @ drop (k + length pts) selector)"
  using assms(1,4)
proof (induction pts arbitrary: k selector)
  case Nil
  then show ?case by simp
next
  case (Cons pt pts)
  let ?out = "cv k (mk (pt ! 0)) df (pt ! 1) (pt ! 2) (pt ! 3)"
  let ?sel = "selector[k := point_row fadd ?out]"
  from Cons.prems have len: "4 \<le> length pt" and k: "k < length selector" by auto
  have rp: "record_point fadd ?out k selector = Inr ?sel"
  proof -
    from assms(2) have "epochs n ?out" by (simp add: trains_for_def)
    from k epochs_nonempty [OF this assms(3)] show ?thesis by (rule record_point_ok)
  qed
  have step: "loop_sgd fadd mk cv df (enumerate k (pt # pts)) selector =
              loop_sgd fadd mk cv df (enumerate (Suc k) pts) ?sel"
  proof -
    have "pt_get pt 0 = Inr (pt ! 0)" "pt_get pt 1 = Inr (pt ! 1)"
      "pt_get pt 2 = Inr (pt ! 2)" "pt_get pt 3 = Inr (pt ! 3)"
      using len unfolding pt_get_def by auto
    with rp show ?thesis by (simp add: Let_def)
  qed
  have ih: "loop_sgd fadd mk cv df (enumerate (Suc k) pts) ?sel =
        Inr (take (Suc k) ?sel @ map (sgd_row fadd mk cv df) (enumerate (Suc k) pts)
             @ drop (Suc k + length pts) ?sel)"
    using Cons.prems by (intro Cons.IH) auto
  have t: "take (Suc k) ?sel = take k selector @ [point_row fadd ?out]"
    using k by (simp add: take_Suc_conv_app_nth)
  have d: "drop (Suc k + length pts) ?sel = drop (k + length (pt # pts)) selector"
    by simp
  show ?case unfolding step ih t d by (simp add: sgd_row_def output_sgd_def)
qed

lemma loop_sgd_short_point:
  assumes "length pt < 4"
  shows "loop_sgd fadd mk cv df ((i, pt) # rest) selector = Inl IndexError"
proof -
  have "pt_get pt 3 = Inl IndexError" using assms by (simp add: pt_get_def)
  then show ?thesis by (simp add: Let_def split: sum.splits) (simp add: pt_get_def split: if_splits)
qed

lemma sgd_search:
  assumes "hps_ok hps" and "4 \<le> length hps" and "\<forall>c\<in>set (counts hps). 0 \<le> c"
    and "trains_for n cv df" and "0 < n"
  shows "\<exists>grid. build_grid hps = Inr grid \<and>
           (case build_grid hps of
              Inl e \<Rightarrow> Inl e
            | Inr grid \<Rightarrow>
                (case loop_sgd fadd mk cv df (enumerate 0 grid) (replicate (length grid) zero_row) of
                   Inl e \<Rightarrow> Inl e
                 | Inr selector \<Rightarrow> Inr (zip grid selector)))
           = Inr (zip grid (map (sgd_row fadd mk cv df) (enumerate 0 grid)))"
proof -
  from build_grid_total [OF assms(1,3)] obtain grid where g: "build_grid hps = Inr grid" ..
  have "\<forall>pt\<in>set grid. 4 \<le> length pt"
    using build_grid_point_length [OF g] assms(2) by simp
  from loop_sgd_enumerate [OF this assms(4) assms(5), where k = 0
      and selector = "replicate (length grid) zero_row" and mk = mk and fadd = fadd]
  have "loop_sgd fadd mk cv df (enumerate 0 grid) (replicate (length grid) zero_row)
        = Inr (map (sgd_row fadd mk cv df) (enumerate 0 grid))" by simp
  with g show ?thesis by simp
qed

lemma twolayergridsearch_table:
  assumes "hps_ok hps" and "4 \<le> length hps" and "\<forall>c\<in>set (counts hps). 0 \<le> c"
    and "trains_for n cv df" and "0 < n"
  shows "\<exists>grid. build_grid hps = Inr grid \<and>
           twolayergridsearch fadd mk cv df hps
           = Inr (zip grid (map (sgd_row fadd mk cv df) (enumerate 0 grid)))"
  using sgd_search [OF assms, where fadd = fadd and mk = mk] unfolding twolayergridsearch_def .

lemma threelayergridsearch_table:
  assumes "hps_ok hps" and "4 \<le> length hps" and "\<forall>c\<in>set (counts hps). 0 \<le> c"
    and "trains_for n cv df" and "0 < n"
  shows "\<exists>grid. build_grid hps = Inr grid \<and>
           threelayergridsearch fadd mk cv df hps
           = Inr (zip grid (map (sgd_row fadd mk cv df) (enumerate 0 grid)))"
  using sgd_search [OF assms, where fadd = fadd and mk = mk] unfolding threelayergridsearch_def .

lemma table_nth:
  assumes "i < length grid"
  shows "zip grid (map f (enumerate 0 grid)) ! i = (grid ! i, f (i, grid ! i))"
  using assms by (simp add: nth_enumerate_eq)

lemma first_index_less:
  "v \<in> set xs \<Longrightarrow> first_index v xs < length xs"
  unfolding first_index_def by (induction xs) auto

lemma first_index_hit:
  "v \<in> set xs \<Longrightarrow> xs ! first_index v xs = v"
  unfolding first_index_def by (induction xs) auto

lemma first_index_least:
  "j < length xs \<Longrightarrow> xs ! j = v \<Longrightarrow> first_index v xs \<le> j"
  unfolding first_index_def
proof (induction xs arbitrary: j)
  case Nil
  then show ?case by simp
next
  case (Cons x xs)
  then show ?case by (cases j) auto
qed

lemma curve_set:
  assumes "length (split_0_val d) = n" and "length (split_1_val d) = n"
    and "length (split_2_val d) = n"
  shows "set (sum_splits (+) d) = (\<lambda>e. 3 * fold_mean d e) ` {..<n}"
proof -
  have len: "length (sum_splits (+) d) = n" using assms by (rule sum_splits_length)
  have "set (sum_splits (+) d) = (\<lambda>e. sum_splits (+) d ! e) ` {..<n}"
    using len by (auto simp: set_conv_nth)
  also have "\<dots> = (\<lambda>e. 3 * fold_mean d e) ` {..<n}"
    using sum_splits_nth [OF assms] by (intro image_cong) auto
  finally show ?thesis .
qed

lemma curve_max:
  assumes "length (split_0_val d) = n" and "length (split_1_val d) = n"
    and "length (split_2_val d) = n" and "0 < n"
  shows "Max (set (sum_splits (+) d)) = 3 * Max (fold_mean d ` {..<n})"
proof -
  have ne: "fold_mean d ` {..<n} \<noteq> {}" using assms(4) by auto
  have "mono (\<lambda>x::real. 3 * x)" by (simp add: mono_def)
  from mono_Max_commute [OF this _ ne]
  have "3 * Max (fold_mean d ` {..<n}) = Max ((\<lambda>x. 3 * x) ` fold_mean d ` {..<n})" by simp
  also have "(\<lambda>x. 3 * x) ` fold_mean d ` {..<n} = set (sum_splits (+) d)"
    using curve_set [OF assms(1-3)] by (simp add: image_image)
  finally show ?thesis by simp
qed

lemma curve_min:
  assumes "length (split_0_val d) = n" and "length (split_1_val d) = n"
    and "length (split_2_val d) = n" and "0 < n"
  shows "Min (set (sum_splits (+) d)) = 3 * Min (fold_mean d ` {..<n})"
proof -
  have ne: "fold_mean d ` {..<n} \<noteq> {}" using assms(4) by auto
  have "mono (\<lambda>x::real. 3 * x)" by (simp add: mono_def)
  from mono_Min_commute [OF this _ ne]
  have "3 * Min (fold_mean d ` {..<n}) = Min ((\<lambda>x. 3 * x) ` fold_mean d ` {..<n})" by simp
  also have "(\<lambda>x. 3 * x) ` fold_mean d ` {..<n} = set (sum_splits (+) d)"
    using curve_set [OF assms(1-3)] by (simp add: image_image)
  finally show ?thesis by simp
qed

text \<open>The position that argmax or argmin of the summed curve returns, for the value v.\<close>

lemma curve_first_index:
  assumes "length (split_0_val d) = n" and "length (split_1_val d) = n"
    and "length (split_2_val d) = n" and "v \<in> fold_mean d ` {..<n}"
  shows "first_index (3 * v) (sum_splits (+) d) < n"
    and "fold_mean d (first_index (3 * v) (sum_splits (+) d)) = v"
    and "\<forall>e<n. fold_mean d e = v \<longrightarrow> first_index (3 * v) (sum_splits (+) d) \<le> e"
proof -
  have len: "length (sum_splits (+) d) = n" using assms(1-3) by (rule sum_splits_length)
  have mem: "3 * v \<in> set (sum_splits (+) d)"
    using assms(4) curve_set [OF assms(1-3)] by auto
  from first_index_less [OF mem] len
  show lt: "first_index (3 * v) (sum_splits (+) d) < n" by simp
  from first_index_hit [OF mem] sum_splits_nth [OF assms(1-3) lt]
  show "fold_mean d (first_index (3 * v) (sum_splits (+) d)) = v" by simp
  show "\<forall>e<n. fold_mean d e = v \<longrightarrow> first_index (3 * v) (sum_splits (+) d) \<le> e"
  proof (intro allI impI)
    fix e assume e: "e < n" and "fold_mean d e = v"
    with sum_splits_nth [OF assms(1-3) e] have "sum_splits (+) d ! e = 3 * v" by simp
    with e len show "first_index (3 * v) (sum_splits (+) d) \<le> e"
      by (intro first_index_least) auto
  qed
qed

lemma Max_fold_mean_mem:
  "0 < n \<Longrightarrow> Max (fold_mean d ` {..<n}) \<in> fold_mean d ` {..<n}"
  by (intro Max_in) auto

lemma Min_fold_mean_mem:
  "0 < n \<Longrightarrow> Min (fold_mean d ` {..<n}) \<in> fold_mean d ` {..<n}"
  by (intro Min_in) auto

text \<open>What the row of one grid point holds, in terms of the curve of fold means.\<close>

lemma point_row_f1:
  assumes "epochs n out" and "0 < n"
  shows "best_f1_val (point_row (+) out) = Max (fold_mean (unweighted_f1 out) ` {..<n})"
    and "0 \<le> f1_val_stop (point_row (+) out)"
    and "f1_val_stop (point_row (+) out) < int n"
    and "fold_mean (unweighted_f1 out) (nat (f1_val_stop (point_row (+) out)))
         = Max (fold_mean (unweighted_f1 out) ` {..<n})"
    and "\<forall>e<n. fold_mean (unweighted_f1 out) e = Max (fold_mean (unweighted_f1 out) ` {..<n})
           \<longrightarrow> f1_val_stop (point_row (+) out) \<le> int e"
proof -
  let ?d = "unweighted_f1 out"
  from assms(1) have l: "length (split_0_val ?d) = n" "length (split_1_val ?d) = n"
    "length (split_2_val ?d) = n" by (simp_all add: epochs_def)
  note mx = curve_max [OF l assms(2)]
  note fi = curve_first_index [OF l Max_fold_mean_mem [OF assms(2)]]
  show "best_f1_val (point_row (+) out) = Max (fold_mean ?d ` {..<n})"
    by (simp add: point_row_def mx)
  show "0 \<le> f1_val_stop (point_row (+) out)" by (simp add: point_row_def)
  show "f1_val_stop (point_row (+) out) < int n" using fi(1) by (simp add: point_row_def mx)
  show "fold_mean ?d (nat (f1_val_stop (point_row (+) out))) = Max (fold_mean ?d ` {..<n})"
    using fi(2) by (simp add: point_row_def mx)
  show "\<forall>e<n. fold_mean ?d e = Max (fold_mean ?d ` {..<n})
           \<longrightarrow> f1_val_stop (point_row (+) out) \<le> int e"
    using fi(3) by (simp add: point_row_def mx)
qed

lemma point_row_logloss:
  assumes "epochs n out" and "0 < n"
  shows "best_logloss_val (point_row (+) out) = Min (fold_mean (logloss out) ` {..<n})"
    and "0 \<le> logloss_val_stop (point_row (+) out)"
    and "logloss_val_stop (point_row (+) out) < int n"
    and "fold_mean (logloss out) (nat (logloss_val_stop (point_row (+) out)))
         = Min (fold_mean (logloss out) ` {..<n})"
    and "\<forall>e<n. fold_mean (logloss out) e = Min (fold_mean (logloss out) ` {..<n})
           \<longrightarrow> logloss_val_stop (point_row (+) out) \<le> int e"
proof -
  let ?d = "logloss out"
  from assms(1) have l: "length (split_0_val ?d) = n" "length (split_1_val ?d) = n"
    "length (split_2_val ?d) = n" by (simp_all add: epochs_def)
  note mn = curve_min [OF l assms(2)]
  note fi = curve_first_index [OF l Min_fold_mean_mem [OF assms(2)]]
  show "best_logloss_val (point_row (+) out) = Min (fold_mean ?d ` {..<n})"
    by (simp add: point_row_def mn)
  show "0 \<le> logloss_val_stop (point_row (+) out)" by (simp add: point_row_def)
  show "logloss_val_stop (point_row (+) out) < int n" using fi(1) by (simp add: point_row_def mn)
  show "fold_mean ?d (nat (logloss_val_stop (point_row (+) out))) = Min (fold_mean ?d ` {..<n})"
    using fi(2) by (simp add: point_row_def mn)
  show "\<forall>e<n. fold_mean ?d e = Min (fold_mean ?d ` {..<n})
           \<longrightarrow> logloss_val_stop (point_row (+) out) \<le> int e"
    using fi(3) by (simp add: point_row_def mn)
qed

text \<open>
  The recorded epochs in terms of the summed curve, whatever the addition is: the
  epoch is a row of the curve, the curve has its extremum there and at no earlier row,
  and the recorded best value is that extremum divided by 3.
\<close>

lemma first_index_extremum:
  assumes "v \<in> set xs"
  shows "first_index v xs < length xs" and "xs ! first_index v xs = v"
    and "\<forall>e<length xs. xs ! e = v \<longrightarrow> first_index v xs \<le> e"
  using first_index_less [OF assms] first_index_hit [OF assms] first_index_least by blast+

lemma point_row_stop_f1:
  assumes "epochs n out" and "0 < n"
  shows "0 \<le> f1_val_stop (point_row fadd out)"
    and "f1_val_stop (point_row fadd out) < int n"
    and "sum_splits fadd (unweighted_f1 out) ! nat (f1_val_stop (point_row fadd out))
         = Max (set (sum_splits fadd (unweighted_f1 out)))"
    and "\<forall>e<n. sum_splits fadd (unweighted_f1 out) ! e
                 = Max (set (sum_splits fadd (unweighted_f1 out)))
           \<longrightarrow> f1_val_stop (point_row fadd out) \<le> int e"
    and "best_f1_val (point_row fadd out)
         = sum_splits fadd (unweighted_f1 out) ! nat (f1_val_stop (point_row fadd out)) / 3"
proof -
  let ?s = "sum_splits fadd (unweighted_f1 out)"
  from assms(1) have len: "length ?s = n" by (simp add: epochs_def sum_splits_length)
  with assms(2) have "?s \<noteq> []" by auto
  then have mem: "Max (set ?s) \<in> set ?s" by (intro Max_in) auto
  note fi = first_index_extremum [OF mem]
  show "0 \<le> f1_val_stop (point_row fadd out)" by (simp add: point_row_def)
  show "f1_val_stop (point_row fadd out) < int n" using fi(1) len by (simp add: point_row_def)
  show "?s ! nat (f1_val_stop (point_row fadd out)) = Max (set ?s)"
    using fi(2) by (simp add: point_row_def)
  show "\<forall>e<n. ?s ! e = Max (set ?s) \<longrightarrow> f1_val_stop (point_row fadd out) \<le> int e"
    using fi(3) len by (simp add: point_row_def)
  show "best_f1_val (point_row fadd out) = ?s ! nat (f1_val_stop (point_row fadd out)) / 3"
    using fi(2) by (simp add: point_row_def)
qed

lemma point_row_stop_logloss:
  assumes "epochs n out" and "0 < n"
  shows "0 \<le> logloss_val_stop (point_row fadd out)"
    and "logloss_val_stop (point_row fadd out) < int n"
    and "sum_splits fadd (logloss out) ! nat (logloss_val_stop (point_row fadd out))
         = Min (set (sum_splits fadd (logloss out)))"
    and "\<forall>e<n. sum_splits fadd (logloss out) ! e = Min (set (sum_splits fadd (logloss out)))
           \<longrightarrow> logloss_val_stop (point_row fadd out) \<le> int e"
    and "best_logloss_val (point_row fadd out)
         = sum_splits fadd (logloss out) ! nat (logloss_val_stop (point_row fadd out)) / 3"
proof -
  let ?s = "sum_splits fadd (logloss out)"
  from assms(1) have len: "length ?s = n" by (simp add: epochs_def sum_splits_length)
  with assms(2) have "?s \<noteq> []" by auto
  then have mem: "Min (set ?s) \<in> set ?s" by (intro Min_in) auto
  note fi = first_index_extremum [OF mem]
  show "0 \<le> logloss_val_stop (point_row fadd out)" by (simp add: point_row_def)
  show "logloss_val_stop (point_row fadd out) < int n"
    using fi(1) len by (simp add: point_row_def)
  show "?s ! nat (logloss_val_stop (point_row fadd out)) = Min (set ?s)"
    using fi(2) by (simp add: point_row_def)
  show "\<forall>e<n. ?s ! e = Min (set ?s) \<longrightarrow> logloss_val_stop (point_row fadd out) \<le> int e"
    using fi(3) len by (simp add: point_row_def)
  show "best_logloss_val (point_row fadd out)
        = ?s ! nat (logloss_val_stop (point_row fadd out)) / 3"
    using fi(2) by (simp add: point_row_def)
qed

text \<open>The table of the grid search, row by row.\<close>

lemma twolayergridsearch_rows:
  assumes "hps_ok hps" and "4 \<le> length hps" and "\<forall>c\<in>set (counts hps). 0 \<le> c"
    and "trains_for n cv df" and "0 < n"
  shows "\<exists>tbl. twolayergridsearch fadd mk cv df hps = Inr tbl \<and>
           build_grid hps = Inr (map fst tbl) \<and>
           (\<forall>i<length tbl. snd (tbl ! i) = point_row fadd (output_sgd mk cv df i (fst (tbl ! i))))"
proof -
  from twolayergridsearch_table [OF assms, where mk = mk and fadd = fadd] obtain grid
    where g: "build_grid hps = Inr grid"
      and t: "twolayergridsearch fadd mk cv df hps
              = Inr (zip grid (map (sgd_row fadd mk cv df) (enumerate 0 grid)))" by blast
  let ?tbl = "zip grid (map (sgd_row fadd mk cv df) (enumerate 0 grid))"
  have "map fst ?tbl = grid" by (simp add: map_fst_zip)
  moreover have "\<forall>i<length ?tbl. snd (?tbl ! i) = point_row fadd (output_sgd mk cv df i (fst (?tbl ! i)))"
    by (simp add: nth_enumerate_eq sgd_row_def)
  ultimately show ?thesis using g t by auto
qed

lemma example_counts: "counts hps_example = [5, 6, 2, 3]"
  by (simp add: hps_example_def counts_def)

lemma example_facts:
  "hps_ok hps_example" "4 \<le> length hps_example" "\<forall>c\<in>set (counts hps_example). 0 \<le> c"
  "trains_for 5 crossvalid_example ()" "(0::nat) < 5"
  by (simp_all add: hps_example_def hps_ok_def counts_def trains_for_def crossvalid_example_def
      epochs_def output_example_def)

text \<open>
  C5. For a specification of at least four dimensions and an epoch budget \<open>n > 0\<close>,
  \<open>twolayergridsearch\<close> returns a table indexed by the grid in which, for every grid
  point, \<open>best_f1_val\<close> is the maximum over the epochs of the mean over the three
  folds of the validation macro-F1, and \<open>best_logloss_val\<close> is the minimum over the
  epochs of the mean over the folds of the validation log-loss. The values are those
  of exact arithmetic, which the code's values equal up to rounding.
\<close>

theorem twolayergridsearch_best_values:
  assumes "hps_ok hps" and "4 \<le> length hps" and "\<forall>c\<in>set (counts hps). 0 \<le> c"
    and "trains_for n cv df" and "0 < n"
  shows "\<exists>tbl. twolayergridsearch (+) mk cv df hps = Inr tbl \<and>
           build_grid hps = Inr (map fst tbl) \<and>
           (\<forall>i<length tbl.
              best_f1_val (snd (tbl ! i))
                = Max (fold_mean (unweighted_f1 (output_sgd mk cv df i (fst (tbl ! i)))) ` {..<n}) \<and>
              best_logloss_val (snd (tbl ! i))
                = Min (fold_mean (logloss (output_sgd mk cv df i (fst (tbl ! i)))) ` {..<n}))"
proof -
  from twolayergridsearch_rows [OF assms, where mk = mk and fadd = "(+)"] obtain tbl
    where t: "twolayergridsearch (+) mk cv df hps = Inr tbl"
      and g: "build_grid hps = Inr (map fst tbl)"
      and r: "\<forall>i<length tbl. snd (tbl ! i) = point_row (+) (output_sgd mk cv df i (fst (tbl ! i)))"
    by blast
  have e: "epochs n (output_sgd mk cv df i pt)" for i pt
    using assms(4) by (simp add: trains_for_def output_sgd_def)
  have "\<forall>i<length tbl.
          best_f1_val (snd (tbl ! i))
            = Max (fold_mean (unweighted_f1 (output_sgd mk cv df i (fst (tbl ! i)))) ` {..<n}) \<and>
          best_logloss_val (snd (tbl ! i))
            = Min (fold_mean (logloss (output_sgd mk cv df i (fst (tbl ! i)))) ` {..<n})"
    using r point_row_f1(1) [OF e assms(5)] point_row_logloss(1) [OF e assms(5)] by simp
  with t g show ?thesis by blast
qed

theorem twolayergridsearch_best_values_witness:
  "hps_ok hps_example \<and> 4 \<le> length hps_example \<and> counts hps_example = [5, 6, 2, 3] \<and>
   trains_for 5 crossvalid_example () \<and> (0::nat) < 5 \<and>
   (\<exists>tbl. twolayergridsearch (+) model_example crossvalid_example () hps_example = Inr tbl \<and>
           build_grid hps_example = Inr (map fst tbl) \<and>
           (\<forall>i<length tbl.
              best_f1_val (snd (tbl ! i))
                = Max (fold_mean (unweighted_f1
                        (output_sgd model_example crossvalid_example () i (fst (tbl ! i)))) ` {..<5}) \<and>
              best_logloss_val (snd (tbl ! i))
                = Min (fold_mean (logloss
                        (output_sgd model_example crossvalid_example () i (fst (tbl ! i)))) ` {..<5})))"
  using twolayergridsearch_best_values [OF example_facts, where mk = model_example] example_facts
    example_counts
  by (intro conjI) assumption+

text \<open>
  C6. Under the same conditions, for every grid point both recorded stopping epochs,
  \<open>f1_val_stop\<close> and \<open>logloss_val_stop\<close>, are integers between 0 and \<open>n - 1\<close>,
  whatever the rounding of the sums is.
\<close>

theorem twolayergridsearch_stop_in_range:
  assumes "hps_ok hps" and "4 \<le> length hps" and "\<forall>c\<in>set (counts hps). 0 \<le> c"
    and "trains_for n cv df" and "0 < n"
  shows "\<exists>tbl. twolayergridsearch fadd mk cv df hps = Inr tbl \<and>
           build_grid hps = Inr (map fst tbl) \<and>
           (\<forall>i<length tbl.
              0 \<le> f1_val_stop (snd (tbl ! i)) \<and> f1_val_stop (snd (tbl ! i)) \<le> int n - 1 \<and>
              0 \<le> logloss_val_stop (snd (tbl ! i)) \<and>
              logloss_val_stop (snd (tbl ! i)) \<le> int n - 1)"
proof -
  from twolayergridsearch_rows [OF assms, where mk = mk and fadd = fadd] obtain tbl
    where t: "twolayergridsearch fadd mk cv df hps = Inr tbl"
      and g: "build_grid hps = Inr (map fst tbl)"
      and r: "\<forall>i<length tbl. snd (tbl ! i) = point_row fadd (output_sgd mk cv df i (fst (tbl ! i)))"
    by blast
  have e: "epochs n (output_sgd mk cv df i pt)" for i pt
    using assms(4) by (simp add: trains_for_def output_sgd_def)
  have "\<forall>i<length tbl.
          0 \<le> f1_val_stop (snd (tbl ! i)) \<and> f1_val_stop (snd (tbl ! i)) \<le> int n - 1 \<and>
          0 \<le> logloss_val_stop (snd (tbl ! i)) \<and> logloss_val_stop (snd (tbl ! i)) \<le> int n - 1"
  proof (intro allI impI)
    fix i assume "i < length tbl"
    with r have s: "snd (tbl ! i) = point_row fadd (output_sgd mk cv df i (fst (tbl ! i)))"
      by simp
    from point_row_stop_f1(1,2) [OF e assms(5), of fadd i "fst (tbl ! i)"]
      point_row_stop_logloss(1,2) [OF e assms(5), of fadd i "fst (tbl ! i)"]
    show "0 \<le> f1_val_stop (snd (tbl ! i)) \<and> f1_val_stop (snd (tbl ! i)) \<le> int n - 1 \<and>
          0 \<le> logloss_val_stop (snd (tbl ! i)) \<and> logloss_val_stop (snd (tbl ! i)) \<le> int n - 1"
      unfolding s by (simp add: zle_diff1_eq)
  qed
  with t g show ?thesis by blast
qed

theorem twolayergridsearch_stop_in_range_witness:
  "hps_ok hps_example \<and> 4 \<le> length hps_example \<and> counts hps_example = [5, 6, 2, 3] \<and>
   trains_for 5 crossvalid_example () \<and> (0::nat) < 5 \<and>
   (\<exists>tbl. twolayergridsearch (+) model_example crossvalid_example () hps_example = Inr tbl \<and>
           build_grid hps_example = Inr (map fst tbl) \<and>
           (\<forall>i<length tbl.
              0 \<le> f1_val_stop (snd (tbl ! i)) \<and> f1_val_stop (snd (tbl ! i)) \<le> int 5 - 1 \<and>
              0 \<le> logloss_val_stop (snd (tbl ! i)) \<and>
              logloss_val_stop (snd (tbl ! i)) \<le> int 5 - 1))"
  using twolayergridsearch_stop_in_range [OF example_facts, where mk = model_example
      and fadd = "(+)"] example_facts example_counts
  by (intro conjI) assumption+






lemma hps_four_dims_facts:
  "hps_ok (hps_four_dims a b c d)" "4 \<le> length (hps_four_dims a b c d)"
  "\<forall>c\<in>set (counts (hps_four_dims a b c d)). 0 \<le> c"
  "prod_list (counts (hps_four_dims a b c d)) = 6"
  by (simp_all add: hps_four_dims_def hps_ok_def counts_def)

text \<open>
  C2, as amended. Called with the four dimensions \<open>dr=(0.1, 0.5, 3)\<close>,
  \<open>lr=(1e-4, 1e-3, 2)\<close> and \<open>m\<close> and \<open>wd\<close> of one point each, on three folds and
  a budget of five epochs, \<open>twolayergridsearch\<close> returns a table of exactly 6 rows,
  and in every row each best value is the value of its curve at the recorded epoch,
  which lies between 0 and 4.
\<close>

theorem twolayergridsearch_scenario:
  assumes "trains_for 5 cv df"
  shows "\<exists>tbl. twolayergridsearch (+) mk cv df (hps_four_dims m_lo m_hi wd_lo wd_hi) = Inr tbl \<and>
           length tbl = 6 \<and>
           (\<forall>i<length tbl.
              0 \<le> f1_val_stop (snd (tbl ! i)) \<and> f1_val_stop (snd (tbl ! i)) \<le> 4 \<and>
              best_f1_val (snd (tbl ! i))
                = fold_mean (unweighted_f1 (output_sgd mk cv df i (fst (tbl ! i))))
                    (nat (f1_val_stop (snd (tbl ! i)))) \<and>
              0 \<le> logloss_val_stop (snd (tbl ! i)) \<and> logloss_val_stop (snd (tbl ! i)) \<le> 4 \<and>
              best_logloss_val (snd (tbl ! i))
                = fold_mean (logloss (output_sgd mk cv df i (fst (tbl ! i))))
                    (nat (logloss_val_stop (snd (tbl ! i)))))"
proof -
  let ?hps = "hps_four_dims m_lo m_hi wd_lo wd_hi"
  have n: "(0::nat) < 5" by simp
  from twolayergridsearch_rows [OF hps_four_dims_facts(1-3) assms n, where mk = mk
      and fadd = "(+)"] obtain tbl
    where t: "twolayergridsearch (+) mk cv df ?hps = Inr tbl"
      and g: "build_grid ?hps = Inr (map fst tbl)"
      and r: "\<forall>i<length tbl. snd (tbl ! i) = point_row (+) (output_sgd mk cv df i (fst (tbl ! i)))"
    by blast
  from build_grid_length [OF hps_four_dims_facts(1) g] hps_four_dims_facts(4) [of m_lo m_hi wd_lo wd_hi]
  have len: "length tbl = 6" by simp
  have e: "epochs 5 (output_sgd mk cv df i pt)" for i pt
    using assms by (simp add: trains_for_def output_sgd_def)
  have "\<forall>i<length tbl.
              0 \<le> f1_val_stop (snd (tbl ! i)) \<and> f1_val_stop (snd (tbl ! i)) \<le> 4 \<and>
              best_f1_val (snd (tbl ! i))
                = fold_mean (unweighted_f1 (output_sgd mk cv df i (fst (tbl ! i))))
                    (nat (f1_val_stop (snd (tbl ! i)))) \<and>
              0 \<le> logloss_val_stop (snd (tbl ! i)) \<and> logloss_val_stop (snd (tbl ! i)) \<le> 4 \<and>
              best_logloss_val (snd (tbl ! i))
                = fold_mean (logloss (output_sgd mk cv df i (fst (tbl ! i))))
                    (nat (logloss_val_stop (snd (tbl ! i))))"
  proof (intro allI impI)
    fix i assume "i < length tbl"
    with r have s: "snd (tbl ! i) = point_row (+) (output_sgd mk cv df i (fst (tbl ! i)))" by simp
    from point_row_f1 [OF e [of i "fst (tbl ! i)"] n]
      point_row_logloss [OF e [of i "fst (tbl ! i)"] n]
    show "0 \<le> f1_val_stop (snd (tbl ! i)) \<and> f1_val_stop (snd (tbl ! i)) \<le> 4 \<and>
              best_f1_val (snd (tbl ! i))
                = fold_mean (unweighted_f1 (output_sgd mk cv df i (fst (tbl ! i))))
                    (nat (f1_val_stop (snd (tbl ! i)))) \<and>
              0 \<le> logloss_val_stop (snd (tbl ! i)) \<and> logloss_val_stop (snd (tbl ! i)) \<le> 4 \<and>
              best_logloss_val (snd (tbl ! i))
                = fold_mean (logloss (output_sgd mk cv df i (fst (tbl ! i))))
                    (nat (logloss_val_stop (snd (tbl ! i))))"
      unfolding s by simp
  qed
  with t len show ?thesis by blast
qed

lemma trains_example: "trains_for 5 crossvalid_example ()"
  by (simp add: trains_for_def crossvalid_example_def epochs_def output_example_def)

theorem twolayergridsearch_scenario_witness:
  "trains_for 5 crossvalid_example () \<and>
   (\<exists>tbl. twolayergridsearch (+) model_example crossvalid_example ()
             (hps_four_dims (9/10) 1 (1/100000) (1/1000)) = Inr tbl \<and>
           length tbl = 6 \<and>
           (\<forall>i<length tbl.
              0 \<le> f1_val_stop (snd (tbl ! i)) \<and> f1_val_stop (snd (tbl ! i)) \<le> 4 \<and>
              best_f1_val (snd (tbl ! i))
                = fold_mean (unweighted_f1
                    (output_sgd model_example crossvalid_example () i (fst (tbl ! i))))
                    (nat (f1_val_stop (snd (tbl ! i)))) \<and>
              0 \<le> logloss_val_stop (snd (tbl ! i)) \<and> logloss_val_stop (snd (tbl ! i)) \<le> 4 \<and>
              best_logloss_val (snd (tbl ! i))
                = fold_mean (logloss
                    (output_sgd model_example crossvalid_example () i (fst (tbl ! i))))
                    (nat (logloss_val_stop (snd (tbl ! i))))))"
  using twolayergridsearch_scenario [OF trains_example, where mk = model_example
      and m_lo = "9/10" and m_hi = 1 and wd_lo = "1/100000" and wd_hi = "1/1000"]
    trains_example
  by (intro conjI) assumption+

text \<open>
  C2 as stated fails: with the two dimensions \<open>dr\<close> and \<open>lr\<close> only, a grid point
  is a pair, and reading \<open>pt[2]\<close> for the first grid point raises \<open>IndexError\<close>.
\<close>

theorem twolayergridsearch_two_dims_counterexample:
  "twolayergridsearch (+) model_example crossvalid_example () hps_two_dims = Inl IndexError"
proof -
  have ok: "hps_ok hps_two_dims" by (simp add: hps_two_dims_def hps_ok_def)
  have nn: "\<forall>c\<in>set (counts hps_two_dims). 0 \<le> c" by (simp add: hps_two_dims_def counts_def)
  from build_grid_total [OF ok nn] obtain grid where g: "build_grid hps_two_dims = Inr grid" ..
  from build_grid_length [OF ok g] have "length grid = 6"
    by (simp add: hps_two_dims_def counts_def)
  then obtain pt rest where gr: "grid = pt # rest" by (cases grid) auto
  from build_grid_point_length [OF g, of pt] gr have "length pt < 4"
    by (simp add: hps_two_dims_def)
  then have "loop_sgd (+) model_example crossvalid_example () ((0, pt) # enumerate 1 rest)
               (replicate (length grid) zero_row) = Inl IndexError"
    by (rule loop_sgd_short_point)
  with g gr show ?thesis by (simp add: twolayergridsearch_def enumerate_simps)
qed

lemma range_hp_single':
  "map_of hps hp = Some (lo, hi, 1) \<Longrightarrow> 0 < lo \<Longrightarrow> range_hp hps hp = Inr [lo]"
  by (simp add: range_hp_def linspace_one)

lemma build_grid_AdamW_example:
  "build_grid hps_AdamW_example = Inr [[1/10, 1/1000, 1/1000]]"
proof -
  have "range_hp hps_AdamW_example ''dr'' = Inr [1/10]"
    by (rule range_hp_single' [where hi="1/2"]) (simp_all add: hps_AdamW_example_def)
  moreover have "range_hp hps_AdamW_example ''lr'' = Inr [1/1000]"
    by (rule range_hp_single' [where hi="1/100"]) (simp_all add: hps_AdamW_example_def)
  moreover have "range_hp hps_AdamW_example ''wd'' = Inr [1/1000]"
    by (rule range_hp_single' [where hi="1/10"]) (simp_all add: hps_AdamW_example_def)
  moreover have "keys hps_AdamW_example = [''dr'', ''lr'', ''wd'']"
    by (simp add: keys_def hps_AdamW_example_def)
  ultimately show ?thesis by (simp add: build_grid_def ranges_list_def)
qed

lemma sum_splits_example:
  "sum_splits (+) (unweighted_f1 output_example) = [15/10, 24/10, 24/10, 21/10, 24/10]"
  "sum_splits (+) (logloss output_example) = [18/10, 15/10, 9/10, 9/10, 12/10]"
  by (simp_all add: sum_splits_def series_add_def output_example_def)

text \<open>
  C1. \<open>twolayergridsearch_AdamW\<close> on a grid of one point, with a trainer whose mean
  F1 is best (0.8) at epoch 1 and whose mean log-loss is best (0.3) at epoch 2: the
  columns \<open>best_f1_val\<close> and \<open>f1_val_stop\<close> hold the log-loss results, and the
  columns \<open>best_logloss_val\<close> and \<open>logloss_val_stop\<close> still hold the initial 0.
\<close>

theorem twolayergridsearch_AdamW_columns:
  "twolayergridsearch_AdamW (+) model_example crossvalid_AdamW_example () hps_AdamW_example
   = Inr [([1/10, 1/1000, 1/1000],
           \<lparr>best_f1_val = 3/10, f1_val_stop = 2, best_logloss_val = 0, logloss_val_stop = 0\<rparr>)]"
  by (simp add: twolayergridsearch_AdamW_def build_grid_AdamW_example enumerate_simps
      pt_get_def Let_def crossvalid_AdamW_example_def record_point_AdamW_def sum_splits_example
      series_argmax_def series_argmin_def series_max_def series_min_def first_index_def
      set_best_f1_val_def set_f1_val_stop_def zero_row_def)

section \<open>Properties of the hold-one-session-out loop\<close>

lemma list_index_less:
  "n \<in> set xs \<Longrightarrow> \<exists>k. list_index xs n = Inr k \<and> k < length xs \<and> xs ! k = n"
  unfolding list_index_def by (induction xs) auto

lemma pred_column_present:
  assumes "n \<in> set (est_classes est)" and "\<forall>row\<in>set pred. length row = length (est_classes est)"
  shows "\<exists>k. list_index (est_classes est) n = Inr k \<and> k < length (est_classes est) \<and>
             est_classes est ! k = n \<and>
             pred_column est pred mask_sum n = Inr (map (\<lambda>row. row ! k) pred)"
proof -
  from list_index_less [OF assms(1)] obtain k
    where k: "list_index (est_classes est) n = Inr k" "k < length (est_classes est)"
      "est_classes est ! k = n" by blast
  with assms have "pred_column est pred mask_sum n = Inr (map (\<lambda>row. row ! k) pred)"
    by (simp add: pred_column_def column_def)
  with k show ?thesis by blast
qed

lemma pred_column_absent:
  "n \<notin> set (est_classes est) \<Longrightarrow> pred_column est pred mask_sum n = Inr (replicate mask_sum 0)"
  by (simp add: pred_column_def)

lemma pred_column_label_column:
  assumes "\<forall>row\<in>set pred. length row = length (est_classes est)"
  shows "pred_column est pred mask_sum n = Inr (label_column est pred mask_sum n)"
proof (cases "n \<in> set (est_classes est)")
  case True
  from pred_column_present [OF True assms, of mask_sum] obtain k
    where k: "list_index (est_classes est) n = Inr k"
      and p: "pred_column est pred mask_sum n = Inr (map (\<lambda>row. row ! k) pred)" by blast
  from k True have "k = length (takeWhile (\<lambda>x. x \<noteq> n) (est_classes est))"
    by (simp add: list_index_def)
  with p True show ?thesis by (simp add: label_column_def)
next
  case False
  then show ?thesis by (simp add: pred_column_absent label_column_def)
qed

lemma label_column_length:
  "length pred = mask_sum \<Longrightarrow> length (label_column est pred mask_sum n) = mask_sum"
  by (simp add: label_column_def)

lemma fill_missing_result:
  assumes "\<forall>row\<in>set pred. length row = length (est_classes est)"
    and "length pred = mask_sum" and "0 < n_labels"
  shows "fill_missing n_labels est pred mask_sum
         = Inr (map (\<lambda>j. map (\<lambda>n. label_column est pred mask_sum n ! j) [0..<n_labels])
                  [0..<mask_sum])"
proof -
  let ?cols = "map (label_column est pred mask_sum) [0..<n_labels]"
  have c: "collect (map (pred_column est pred mask_sum) [0..<n_labels]) = Inr ?cols"
  proof -
    have "map (pred_column est pred mask_sum) [0..<n_labels] = map Inr ?cols"
      using pred_column_label_column [OF assms(1)] by simp
    moreover have "collect (map Inr ?cols) = Inr ?cols" by (rule collect_map_Inr)
    ultimately show ?thesis by (simp only:)
  qed
  have ne: "?cols \<noteq> []" using assms(3) by simp
  have hd: "length (hd ?cols) = mask_sum"
    using assms(2,3) by (simp add: hd_map label_column_length upt_conv_Cons)
  have len: "\<forall>a\<in>set ?cols. length a = length (hd ?cols)"
    using hd assms(2) by (auto simp: label_column_length)
  have v: "vstack ?cols = Inr ?cols" using ne len by (simp add: vstack_def)
  have "T_array ?cols = map (\<lambda>j. map (\<lambda>n. label_column est pred mask_sum n ! j) [0..<n_labels])
                  [0..<mask_sum]"
    unfolding T_array_def hd by (simp add: comp_def)
  with c v show ?thesis by (simp add: fill_missing_def)
qed

lemma select_mask:
  assumes "length session_tr = length xs"
  shows "select (session_mask session_tr session) xs
         = Inr (map snd (filter (\<lambda>(s, x). s = session) (zip session_tr xs)))"
proof -
  have "map snd (filter fst (zip (map (\<lambda>s. s = session) ss) ys))
        = map snd (filter (\<lambda>(s, x). s = session) (zip ss ys))" for ss :: "'a list" and ys :: "'b list"
    by (induction ss ys rule: list_induct2') auto
  with assms show ?thesis by (simp add: select_def session_mask_def)
qed

lemma select_not_mask:
  assumes "length session_tr = length xs"
  shows "select (map Not (session_mask session_tr session)) xs
         = Inr (map snd (filter (\<lambda>(s, x). s \<noteq> session) (zip session_tr xs)))"
proof -
  have "map snd (filter fst (zip (map Not (map (\<lambda>s. s = session) ss)) ys))
        = map snd (filter (\<lambda>(s, x). s \<noteq> session) (zip ss ys))" for ss :: "'a list" and ys :: "'b list"
    by (induction ss ys rule: list_induct2') auto
  with assms show ?thesis by (simp add: select_def session_mask_def)
qed

lemma mask_sum_session:
  "sum_mask (session_mask session_tr session) = length (filter (\<lambda>s. s = session) session_tr)"
  by (simp add: sum_mask_def session_mask_def filter_map comp_def)

lemma val_X_length:
  assumes "length session_tr = length X_tr"
  shows "length (val_X X_tr session_tr session) = length (filter (\<lambda>s. s = session) session_tr)"
  using assms unfolding val_X_def
  by (induction session_tr X_tr rule: list_induct2) auto

lemma assign_rows_length:
  "length (assign_rows msk vals arr) = length arr"
  by (induction msk vals arr rule: assign_rows.induct) auto

lemma assign_rows_nth:
  assumes "length msk = length arr" and "length vals = length (filter (\<lambda>b. b) msk)"
    and "i < length arr"
  shows "assign_rows msk vals arr ! i
         = (if msk ! i then Some (vals ! length (filter (\<lambda>b. b) (take i msk))) else arr ! i)"
  using assms
proof (induction msk vals arr arbitrary: i rule: assign_rows.induct)
  case (1 msk v vals p arr)
  then show ?case by (cases i) auto
next
  case (2 msk vals p arr)
  then show ?case by (cases i) auto
qed auto

lemma fill_missing_fold_rows:
  assumes "proba_shape est X_val" and "0 < n_labels"
  shows "fill_missing n_labels est (predict_proba est X_val) (length X_val)
         = Inr (fold_rows n_labels est X_val)"
  unfolding fold_rows_def
  using assms by (intro fill_missing_result) (simp_all add: proba_shape_def)

lemma fold_rows_shape:
  "length (fold_rows n_labels est X_val) = length X_val"
  "\<forall>row\<in>set (fold_rows n_labels est X_val). length row = n_labels"
  by (auto simp: fold_rows_def)

lemma fold_rows_absent:
  assumes "j < length X_val" and "n < n_labels" and "n \<notin> set (est_classes est)"
  shows "fold_rows n_labels est X_val ! j ! n = 0"
  using assms by (simp add: fold_rows_def label_column_def)

lemma fold_rows_present:
  assumes "proba_shape est X_val" and "j < length X_val" and "n < n_labels"
    and "n \<in> set (est_classes est)"
  shows "\<exists>k<length (est_classes est). est_classes est ! k = n \<and>
           fold_rows n_labels est X_val ! j ! n = predict_proba est X_val ! j ! k"
proof -
  from list_index_less [OF assms(4)] obtain k
    where k: "list_index (est_classes est) n = Inr k" "k < length (est_classes est)"
      "est_classes est ! k = n" by blast
  from k(1) assms(4) have ke: "k = length (takeWhile (\<lambda>x. x \<noteq> n) (est_classes est))"
    by (simp add: list_index_def)
  have "length (predict_proba est X_val) = length X_val"
    using assms(1) by (simp add: proba_shape_def)
  with assms(2,3,4) ke
  have "fold_rows n_labels est X_val ! j ! n = predict_proba est X_val ! j ! k"
    by (simp add: fold_rows_def label_column_def)
  with k show ?thesis by blast
qed

lemma filter_take_less:
  assumes "i < length xs" and "P (xs ! i)"
  shows "length (filter P (take i xs)) < length (filter P xs)"
proof -
  from assms(1) have "xs = take i xs @ xs ! i # drop (Suc i) xs" by (rule id_take_nth_drop)
  then have "filter P xs = filter P (take i xs) @ filter P (xs ! i # drop (Suc i) xs)"
    by (metis filter_append)
  with assms(2) show ?thesis by simp
qed

lemma val_position_less:
  assumes "i < length session_tr" and "length session_tr = length X_tr"
  shows "val_position session_tr i < length (val_X X_tr session_tr (session_tr ! i))"
  using filter_take_less [OF assms(1), of "\<lambda>s. s = session_tr ! i"] val_X_length [OF assms(2)]
  by (simp add: val_position_def)

lemma mask_position:
  "length (filter (\<lambda>b. b) (take i (session_mask session_tr session)))
   = length (filter (\<lambda>s. s = session) (take i session_tr))"
  by (simp add: session_mask_def take_map filter_map comp_def)

lemma session_loop_rows:
  assumes "length session_tr = length X_tr" and "length session_tr = length y_tr"
    and "0 < n_labels"
    and "\<forall>s\<in>set ss. fits fit X_tr y_tr session_tr est s"
    and "distinct ss"
    and "length pred_prob = length session_tr"
  shows "\<exists>pp. session_loop fit n_labels X_tr y_tr session_tr ss pred_prob = Inr pp \<and>
           length pp = length session_tr \<and>
           (\<forall>i<length session_tr.
              pp ! i = (if session_tr ! i \<in> set ss
                        then Some (fold_rows n_labels (est (session_tr ! i))
                                     (val_X X_tr session_tr (session_tr ! i))
                                   ! val_position session_tr i)
                        else pred_prob ! i))"
  using assms(4,5,6)
proof (induction ss arbitrary: pred_prob)
  case Nil
  then show ?case by simp
next
  case (Cons s ss)
  let ?msk = "session_mask session_tr s"
  let ?Xv = "val_X X_tr session_tr s"
  let ?rows = "fold_rows n_labels (est s) ?Xv"
  let ?pp1 = "assign_rows ?msk ?rows pred_prob"
  from Cons.prems(1) have f: "fits fit X_tr y_tr session_tr est s" by simp
  have s1: "select (map Not ?msk) X_tr = Inr (train_X X_tr session_tr s)"
    using select_not_mask [OF assms(1)] by (simp add: train_X_def)
  have s2: "select (map Not ?msk) y_tr = Inr (train_y y_tr session_tr s)"
    using select_not_mask [OF assms(2)] by (simp add: train_y_def)
  have s3: "select ?msk X_tr = Inr ?Xv"
    using select_mask [OF assms(1)] by (simp add: val_X_def)
  have ft: "fit (train_X X_tr session_tr s) (train_y y_tr session_tr s) = Inr (est s)"
    using f by (simp add: fits_def)
  have cnt: "sum_mask ?msk = length ?Xv"
    using val_X_length [OF assms(1)] by (simp add: mask_sum_session)
  have fm: "fill_missing n_labels (est s) (predict_proba (est s) ?Xv) (sum_mask ?msk) = Inr ?rows"
    unfolding cnt using f assms(3) by (intro fill_missing_fold_rows) (simp_all add: fits_def)
  have lm: "length ?msk = length pred_prob"
    using Cons.prems(3) by (simp add: session_mask_def)
  have am: "assign_mask n_labels ?msk ?rows pred_prob = Inr ?pp1"
    using lm cnt fold_rows_shape [of n_labels "est s" ?Xv] by (simp add: assign_mask_def)
  have step: "session_loop fit n_labels X_tr y_tr session_tr (s # ss) pred_prob
              = session_loop fit n_labels X_tr y_tr session_tr ss ?pp1"
    by (simp add: Let_def s1 s2 s3 ft fm am)
  have l1: "length ?pp1 = length session_tr"
    using Cons.prems(3) by (simp add: assign_rows_length)
  from Cons.prems have "\<forall>s\<in>set ss. fits fit X_tr y_tr session_tr est s" and "distinct ss"
    by auto
  from Cons.IH [OF this l1] obtain pp
    where pp: "session_loop fit n_labels X_tr y_tr session_tr ss ?pp1 = Inr pp"
      and lp: "length pp = length session_tr"
      and rows: "\<forall>i<length session_tr.
              pp ! i = (if session_tr ! i \<in> set ss
                        then Some (fold_rows n_labels (est (session_tr ! i))
                                     (val_X X_tr session_tr (session_tr ! i))
                                   ! val_position session_tr i)
                        else ?pp1 ! i)" by blast
  have "\<forall>i<length session_tr.
              pp ! i = (if session_tr ! i \<in> set (s # ss)
                        then Some (fold_rows n_labels (est (session_tr ! i))
                                     (val_X X_tr session_tr (session_tr ! i))
                                   ! val_position session_tr i)
                        else pred_prob ! i)"
  proof (intro allI impI)
    fix i assume i: "i < length session_tr"
    have a: "?pp1 ! i = (if ?msk ! i
                         then Some (?rows ! length (filter (\<lambda>b. b) (take i ?msk)))
                         else pred_prob ! i)"
      using lm cnt i Cons.prems(3) fold_rows_shape(1) [of n_labels "est s" ?Xv]
      by (intro assign_rows_nth) (simp_all add: sum_mask_def)
    have m: "?msk ! i \<longleftrightarrow> session_tr ! i = s" using i by (simp add: session_mask_def)
    show "pp ! i = (if session_tr ! i \<in> set (s # ss)
                        then Some (fold_rows n_labels (est (session_tr ! i))
                                     (val_X X_tr session_tr (session_tr ! i))
                                   ! val_position session_tr i)
                        else pred_prob ! i)"
    proof (cases "session_tr ! i = s")
      case True
      with Cons.prems(2) have "session_tr ! i \<notin> set ss" by simp
      with rows i have "pp ! i = ?pp1 ! i" by simp
      also have "\<dots> = Some (?rows ! length (filter (\<lambda>b. b) (take i ?msk)))"
        using a m True by simp
      also have "length (filter (\<lambda>b. b) (take i ?msk)) = val_position session_tr i"
        using True by (simp add: mask_position val_position_def)
      finally show ?thesis using True by simp
    next
      case False
      with rows i a m show ?thesis by simp
    qed
  qed
  with pp lp step show ?case by simp
qed

text \<open>
  C8. In the hold-one-session-out loop, whenever the classifier of each fold can be
  fitted and returns probabilities of the promised shape, the cell raises nothing, and
  for a label of the label list and any training sample, the probability recorded for
  the label is 0 when the label is not among the classes of the classifier fitted for
  the sample's session, and otherwise the entry of that classifier's
  \<open>predict_proba\<close> output in the row of the sample and the column of the label.
\<close>

theorem hold_one_session_out_missing_label:
  assumes "length session_tr = length X_tr" and "length session_tr = length y_tr"
    and "\<forall>s\<in>set session_tr. fits fit X_tr y_tr session_tr est s"
    and "n < n_labels"
  shows "\<exists>pred_prob. hold_one_session_out fit n_labels X_tr y_tr session_tr = Inr pred_prob \<and>
           length pred_prob = length X_tr \<and>
           (\<forall>i<length X_tr.
              (n \<notin> set (est_classes (est (session_tr ! i))) \<longrightarrow> pred_prob ! i ! n = 0) \<and>
              (n \<in> set (est_classes (est (session_tr ! i))) \<longrightarrow>
                 (\<exists>k<length (est_classes (est (session_tr ! i))).
                    est_classes (est (session_tr ! i)) ! k = n \<and>
                    pred_prob ! i ! n
                      = predict_proba (est (session_tr ! i))
                          (val_X X_tr session_tr (session_tr ! i)) ! val_position session_tr i ! k)))"
proof -
  let ?ss = "sorted_list_of_set (set session_tr)"
  let ?row = "\<lambda>i. fold_rows n_labels (est (session_tr ! i))
                     (val_X X_tr session_tr (session_tr ! i)) ! val_position session_tr i"
  have pos: "0 < n_labels" using assms(4) by simp
  have ss: "set ?ss = set session_tr" "distinct ?ss" by simp_all
  have "\<forall>s\<in>set ?ss. fits fit X_tr y_tr session_tr est s" using assms(3) by simp
  from session_loop_rows [OF assms(1,2) pos this ss(2), of "replicate (length X_tr) None"]
  obtain pp where pp: "session_loop fit n_labels X_tr y_tr session_tr ?ss
                         (replicate (length X_tr) None) = Inr pp"
    and lp: "length pp = length session_tr"
    and rows: "\<forall>i<length session_tr. pp ! i = Some (?row i)"
    using assms(1) by auto
  have nn: "None \<notin> set pp"
  proof
    assume "None \<in> set pp"
    then obtain i where "i < length pp" "pp ! i = None" by (auto simp: in_set_conv_nth)
    with rows lp show False by simp
  qed
  have res: "hold_one_session_out fit n_labels X_tr y_tr session_tr = Inr (map the pp)"
    using pp nn by (simp add: hold_one_session_out_def)
  have "\<forall>i<length X_tr.
              (n \<notin> set (est_classes (est (session_tr ! i))) \<longrightarrow> map the pp ! i ! n = 0) \<and>
              (n \<in> set (est_classes (est (session_tr ! i))) \<longrightarrow>
                 (\<exists>k<length (est_classes (est (session_tr ! i))).
                    est_classes (est (session_tr ! i)) ! k = n \<and>
                    map the pp ! i ! n
                      = predict_proba (est (session_tr ! i))
                          (val_X X_tr session_tr (session_tr ! i)) ! val_position session_tr i ! k))"
  proof (intro allI impI)
    fix i assume "i < length X_tr"
    then have i: "i < length session_tr" using assms(1) by simp
    then have mem: "session_tr ! i \<in> set session_tr" by simp
    with assms(3) have sh: "proba_shape (est (session_tr ! i)) (val_X X_tr session_tr (session_tr ! i))"
      by (simp add: fits_def)
    have r: "map the pp ! i = ?row i" using rows i lp by simp
    note j = val_position_less [OF i assms(1)]
    show "(n \<notin> set (est_classes (est (session_tr ! i))) \<longrightarrow> map the pp ! i ! n = 0) \<and>
              (n \<in> set (est_classes (est (session_tr ! i))) \<longrightarrow>
                 (\<exists>k<length (est_classes (est (session_tr ! i))).
                    est_classes (est (session_tr ! i)) ! k = n \<and>
                    map the pp ! i ! n
                      = predict_proba (est (session_tr ! i))
                          (val_X X_tr session_tr (session_tr ! i)) ! val_position session_tr i ! k))"
      unfolding r
      using fold_rows_absent [OF j assms(4)] fold_rows_present [OF sh j assms(4)] by blast
  qed
  with res lp assms(1) show ?thesis by simp
qed

lemma example_fits:
  "\<forall>s\<in>set session_example. fits fit_example X_example y_example session_example est_example s"
  by (simp add: session_example_def fits_def fit_example_def X_example_def y_example_def
      est_example_def train_X_def train_y_def val_X_def proba_shape_def Let_def)

theorem hold_one_session_out_missing_label_witness:
  "length session_example = length X_example \<and> length session_example = length y_example \<and>
   fits fit_example X_example y_example session_example est_example 1 \<and>
   fits fit_example X_example y_example session_example est_example 2 \<and>
   (2::nat) < 3 \<and>
   (\<exists>pred_prob. hold_one_session_out fit_example 3 X_example y_example session_example = Inr pred_prob \<and>
           length pred_prob = length X_example \<and>
           (\<forall>i<length X_example.
              (2 \<notin> set (est_classes (est_example (session_example ! i))) \<longrightarrow> pred_prob ! i ! 2 = 0) \<and>
              (2 \<in> set (est_classes (est_example (session_example ! i))) \<longrightarrow>
                 (\<exists>k<length (est_classes (est_example (session_example ! i))).
                    est_classes (est_example (session_example ! i)) ! k = 2 \<and>
                    pred_prob ! i ! 2
                      = predict_proba (est_example (session_example ! i))
                          (val_X X_example session_example (session_example ! i))
                        ! val_position session_example i ! k))))"
proof -
  have a: "length session_example = length X_example"
    by (simp add: session_example_def X_example_def)
  have b: "length session_example = length y_example"
    by (simp add: session_example_def y_example_def)
  have c: "(2::nat) < 3" by simp
  have d: "fits fit_example X_example y_example session_example est_example 1"
    "fits fit_example X_example y_example session_example est_example 2"
    using example_fits by (simp_all add: session_example_def)
  from hold_one_session_out_missing_label [OF a b example_fits c] a b c d
  show ?thesis by (intro conjI) assumption+
qed

section \<open>Properties of the small-session reallocation\<close>

lemma value_counts_small:
  "s \<in> set (map fst (filter (\<lambda>(s, c). c < 15) (value_counts xs)))
   \<longleftrightarrow> s \<in> set xs \<and> length (filter (\<lambda>x. x = s) xs) < 15"
  by (force simp: value_counts_def)

lemma session_count_eq:
  "length (filter (\<lambda>x. x = s) (map Session (filter (\<lambda>r. is_test r = 0) (with_session df))))
   = non_test_rows df s"
  unfolding non_test_rows_def with_session_def
  by (induction df) auto

lemma session_present:
  "s \<in> set (map Session (filter (\<lambda>r. is_test r = 0) (with_session df)))
   \<longleftrightarrow> 0 < non_test_rows df s"
  unfolding non_test_rows_def with_session_def
  by (induction df) auto

lemma small_sessions_nth:
  assumes "i < length csv"
  shows "small_sessions csv ! i
         = (if 0 < non_test_rows csv (get_session (Filename (csv ! i))) \<and>
               non_test_rows csv (get_session (Filename (csv ! i))) < 15
            then (csv ! i)\<lparr>Session := get_session (Filename (csv ! i)), is_test := 1\<rparr>
            else (csv ! i)\<lparr>Session := get_session (Filename (csv ! i))\<rparr>)"
proof -
  have w: "with_session csv ! i = (csv ! i)\<lparr>Session := get_session (Filename (csv ! i))\<rparr>"
    using assms by (simp add: with_session_def)
  have l: "i < length (with_session csv)" using assms by (simp add: with_session_def)
  have "Session (with_session csv ! i)
        \<in> set (map fst (filter (\<lambda>(s, c). c < 15) (session_counts (with_session csv))))
        \<longleftrightarrow> 0 < non_test_rows csv (get_session (Filename (csv ! i))) \<and>
            non_test_rows csv (get_session (Filename (csv ! i))) < 15"
    unfolding session_counts_def value_counts_small session_count_eq session_present
    by (simp add: w)
  with l w show ?thesis by (simp add: small_sessions_def new_df_def Let_def)
qed

lemma non_test_rows_pos:
  assumes "i < length csv" and "is_test (csv ! i) = 0"
  shows "0 < non_test_rows csv (get_session (Filename (csv ! i)))"
proof -
  from assms have "csv ! i \<in> set (filter (\<lambda>r. is_test r = 0 \<and>
      get_session (Filename r) = get_session (Filename (csv ! i))) csv)" by simp
  then show ?thesis unfolding non_test_rows_def by (metis length_pos_if_in_set)
qed

text \<open>
  C10. For a table whose \<open>is_test\<close> flags are 0 or 1, the notebook keeps the number
  of rows; a row whose session (\<open>get_session\<close> of its file name) has fewer than 15
  rows outside the test set has \<open>is_test = 1\<close> afterwards; any other row is the row
  of the input with its \<open>Session\<close> column; no row changes its file name or its other
  columns, and no \<open>is_test\<close> flag decreases.
\<close>

theorem small_sessions_only_into_test:
  assumes "\<forall>r\<in>set csv. is_test r = 0 \<or> is_test r = 1" and "i < length csv"
  shows "length (small_sessions csv) = length csv \<and>
         (non_test_rows csv (get_session (Filename (csv ! i))) < 15
            \<longrightarrow> is_test (small_sessions csv ! i) = 1) \<and>
         (\<not> non_test_rows csv (get_session (Filename (csv ! i))) < 15
            \<longrightarrow> small_sessions csv ! i = (csv ! i)\<lparr>Session := get_session (Filename (csv ! i))\<rparr>) \<and>
         Filename (small_sessions csv ! i) = Filename (csv ! i) \<and>
         Session (small_sessions csv ! i) = get_session (Filename (csv ! i)) \<and>
         other (small_sessions csv ! i) = other (csv ! i) \<and>
         is_test (csv ! i) \<le> is_test (small_sessions csv ! i)"
proof -
  let ?c = "non_test_rows csv (get_session (Filename (csv ! i)))"
  note nth = small_sessions_nth [OF assms(2)]
  from assms have flag: "is_test (csv ! i) = 0 \<or> is_test (csv ! i) = 1" by simp
  have len: "length (small_sessions csv) = length csv"
    by (simp add: small_sessions_def new_df_def with_session_def Let_def)
  have small: "is_test (small_sessions csv ! i) = 1" if "?c < 15"
  proof (cases "0 < ?c")
    case True
    with that nth show ?thesis by simp
  next
    case False
    with non_test_rows_pos [OF assms(2)] flag have "is_test (csv ! i) = 1" by blast
    with False nth show ?thesis by simp
  qed
  have large: "small_sessions csv ! i = (csv ! i)\<lparr>Session := get_session (Filename (csv ! i))\<rparr>"
    if "\<not> ?c < 15"
    using that nth by simp
  have cols: "Filename (small_sessions csv ! i) = Filename (csv ! i)"
    "Session (small_sessions csv ! i) = get_session (Filename (csv ! i))"
    "other (small_sessions csv ! i) = other (csv ! i)"
    using nth by (simp_all split: if_splits)
  have mono: "is_test (csv ! i) \<le> is_test (small_sessions csv ! i)"
    using nth flag by (auto split: if_splits)
  from len small large cols mono show ?thesis by blast
qed

lemma csv_example_session:
  "get_session (Filename (csv_example ! 0)) = ''200126_2142''"
  by (simp add: csv_example_def get_session_def)

lemma csv_example_count:
  "non_test_rows csv_example ''200126_2142'' = 1"
  by (simp add: non_test_rows_def csv_example_def get_session_def)

theorem small_sessions_only_into_test_witness:
  "is_test (csv_example ! 0) = 0 \<and> is_test (csv_example ! 1) = 1 \<and> 0 < length csv_example \<and>
   non_test_rows csv_example (get_session (Filename (csv_example ! 0))) = 1 \<and>
   length (small_sessions csv_example) = length csv_example \<and>
   is_test (small_sessions csv_example ! 0) = 1 \<and>
   Filename (small_sessions csv_example ! 0) = Filename (csv_example ! 0) \<and>
   Session (small_sessions csv_example ! 0) = ''200126_2142'' \<and>
   other (small_sessions csv_example ! 0) = other (csv_example ! 0) \<and>
   is_test (csv_example ! 0) \<le> is_test (small_sessions csv_example ! 0)"
proof -
  have a: "\<forall>r\<in>set csv_example. is_test r = 0 \<or> is_test r = 1" by (simp add: csv_example_def)
  have b: "0 < length csv_example" by (simp add: csv_example_def)
  have c: "is_test (csv_example ! 0) = 0" "is_test (csv_example ! 1) = 1"
    by (simp_all add: csv_example_def)
  have d: "non_test_rows csv_example (get_session (Filename (csv_example ! 0))) = 1"
    by (simp add: csv_example_session csv_example_count)
  from small_sessions_only_into_test [OF a b] b c d csv_example_session
  show ?thesis by simp
qed

end
